theory Spec2Isabelle
  imports Main "HOL-Library.Word"
begin

unbundle bit_operations_syntax

section \<open>Data model of lightIRRecv\<close>

text \<open>
  The library targets 8-bit AVR boards: \<open>uint8_t\<close>, \<open>uint16_t\<close> and \<open>uint32_t\<close>
  (\<open>unsigned long\<close>, the type of \<open>micros()\<close> and of \<open>1UL\<close>) are words of 8, 16 and
  32 bits whose arithmetic wraps around.
\<close>

type_synonym u8 = "8 word"
type_synonym u16 = "16 word"
type_synonym u32 = "32 word"

text \<open>\<open>struct lirrPulseFractionSettings_t\<close> (lightIRRecv.h), fields in declaration order.\<close>

record lirrPulseFractionSettings_t =
  bits :: u8
  distanceMode :: bool
  startMin :: u16
  startMax :: u16
  bitMin :: u16
  bitSep :: u16
  bitMax :: u16

text \<open>
  \<open>struct lirrBiPhaseSettings_t\<close>. Each \<open>uint16_t[2]\<close> array is a pair: element 0 is
  the minimum, element 1 the maximum. Both descriptors have a field \<open>bits\<close>: below,
  plain \<open>bits\<close> is the one of this record, and the one of the pulse-fraction descriptor
  is written \<open>lirrPulseFractionSettings_t.bits\<close>.
\<close>

record lirrBiPhaseSettings_t =
  bits :: u8
  aceRising :: bool
  bitTime :: "u16 \<times> u16"
  startTime :: "u16 \<times> u16"
  toggleTime :: "u16 \<times> u16"
  togglePos :: u8

definition repeatInt :: u32 where "repeatInt = 100000"

definition BUTTON_NONE :: u8 where "BUTTON_NONE = 0"
definition BUTTON_PRESSED :: u8 where "BUTTON_PRESSED = 1"
definition BUTTON_HELD :: u8 where "BUTTON_HELD = 2"
definition BUTTON_RELEASED :: u8 where "BUTTON_RELEASED = 3"

record remoteEvents_t =
  pressTime :: u32
  curTime :: u32
  buttonCode :: u32
  buttonState :: u8
  toggleState :: bool

text \<open>
  The static pointer \<open>bitTime\<close> of \<open>biPhaseDecode\<close> points at one of the three arrays
  of the active descriptor, or is null (its value before the first frame starts).
\<close>

datatype bitTime_ptr = NullPtr | To_bitTime | To_startTime | To_toggleTime

text \<open>
  The globals of lightIRRecv.cpp and the function-local statics: \<open>bitsRemaining\<close> of
  \<open>pulseFractionDecode\<close>, \<open>bitsRemaining\<close> and \<open>bitTime\<close> of \<open>biPhaseDecode\<close>, and
  \<open>pinState\<close> of the interrupt service routine.
\<close>

record lirr_state =
  referenceTime :: u32
  incomingCode :: u32
  remoteEvents :: remoteEvents_t
  pf_bitsRemaining :: u8
  bp_bitsRemaining :: u8
  bp_bitTime :: bitTime_ptr
  isr_pinState :: bool

text \<open>The state at program start: statics are zero, \<open>remoteEvents = {0,0,0,BUTTON_NONE,false}\<close>.\<close>

definition lirr_init :: lirr_state where
  "lirr_init =
     \<lparr>referenceTime = 0, incomingCode = 0,
      remoteEvents = \<lparr>pressTime = 0, curTime = 0, buttonCode = 0,
                       buttonState = BUTTON_NONE, toggleState = False\<rparr>,
      pf_bitsRemaining = 0, bp_bitsRemaining = 0, bp_bitTime = NullPtr,
      isr_pinState = False\<rparr>"

section \<open>The pulse distance / pulse width decoder\<close>

text \<open>
  A decoder returns \<open>None\<close> where the C++ has no defined behaviour: \<open>1UL << n\<close> with
  \<open>n \<ge> 32\<close>, or reading through the null \<open>bitTime\<close> pointer. The value of \<open>micros()\<close>
  at the call is the argument \<open>micros\<close>; the local \<open>curTime\<close> that holds it is
  written \<open>now\<close> (\<open>curTime\<close> names the field of the Event Record).
\<close>

text \<open>The block under \<open>case true:\<close> of \<open>switch (bitsRemaining == 0)\<close>: the start check.\<close>

definition pf_case_true :: "lirrPulseFractionSettings_t \<Rightarrow> u32 \<Rightarrow> lirr_state \<Rightarrow> lirr_state" where
  "pf_case_true pPFSettings measuredTime s =
     (if (measuredTime < ucast (startMax pPFSettings)
            \<and> measuredTime > ucast (startMin pPFSettings))
          \<or> startMax pPFSettings = 0
      then s\<lparr>pf_bitsRemaining := lirrPulseFractionSettings_t.bits pPFSettings,
             incomingCode := 0\<rparr>
      else s)"

text \<open>
  The block under \<open>case false:\<close>: a bit interval. When the interval is out of bounds the
  block ends without \<open>break\<close> and control falls through into \<open>case true:\<close>.
\<close>

definition pf_case_false ::
  "lirrPulseFractionSettings_t \<Rightarrow> u32 \<Rightarrow> u32 \<Rightarrow> lirr_state \<Rightarrow> lirr_state option" where
  "pf_case_false pPFSettings now measuredTime s =
     (if measuredTime > ucast (bitMin pPFSettings) \<and> measuredTime < ucast (bitMax pPFSettings)
      then
        let bitsRemaining = pf_bitsRemaining s - 1;
            s1 = s\<lparr>pf_bitsRemaining := bitsRemaining\<rparr>
        in
          if measuredTime > ucast (bitSep pPFSettings) \<and> 32 \<le> unat bitsRemaining then None
          else
            let s2 = (if measuredTime > ucast (bitSep pPFSettings)
                      then s1\<lparr>incomingCode := incomingCode s1 OR push_bit (unat bitsRemaining) 1\<rparr>
                      else s1)
            in
              if bitsRemaining = 0 \<and> buttonState (remoteEvents s2) = BUTTON_NONE
              then Some (s2\<lparr>remoteEvents := (remoteEvents s2)
                             \<lparr>buttonCode := incomingCode s2,
                              pressTime := now,
                              toggleState := \<not> toggleState (remoteEvents s2)\<rparr>\<rparr>)
              else Some s2
      else Some (pf_case_true pPFSettings measuredTime (s\<lparr>pf_bitsRemaining := 0\<rparr>)))"

definition pulseFractionDecode ::
  "lirrPulseFractionSettings_t \<Rightarrow> bool \<Rightarrow> u32 \<Rightarrow> lirr_state \<Rightarrow> lirr_state option" where
  "pulseFractionDecode pPFSettings pinState micros s =
     (if pinState = distanceMode pPFSettings
      then
        let now = micros;
            measuredTime = now - referenceTime s;
            s1 = s\<lparr>referenceTime := now\<rparr>
        in
          if pf_bitsRemaining s1 = 0
          then Some (pf_case_true pPFSettings measuredTime s1)
          else pf_case_false pPFSettings now measuredTime s1
      else
        if \<not> distanceMode pPFSettings
        then Some (s\<lparr>referenceTime := micros\<rparr>)
        else Some s)"

section \<open>The bi-phase decoder\<close>

definition deref_bitTime :: "lirrBiPhaseSettings_t \<Rightarrow> bitTime_ptr \<Rightarrow> (u16 \<times> u16) option" where
  "deref_bitTime pBPSettings p =
     (case p of
        NullPtr \<Rightarrow> None
      | To_bitTime \<Rightarrow> Some (bitTime pBPSettings)
      | To_startTime \<Rightarrow> Some (startTime pBPSettings)
      | To_toggleTime \<Rightarrow> Some (toggleTime pBPSettings))"

text \<open>The block under \<open>case true:\<close>: wait for a rising edge, which starts a frame.\<close>

definition bp_case_true :: "lirrBiPhaseSettings_t \<Rightarrow> bool \<Rightarrow> u32 \<Rightarrow> lirr_state \<Rightarrow> lirr_state" where
  "bp_case_true pBPSettings pinState now s =
     (if pinState
      then s\<lparr>bp_bitsRemaining := bits pBPSettings,
             incomingCode := 0,
             bp_bitTime := To_startTime,
             referenceTime := now\<rparr>
      else s)"

text \<open>
  The body of \<open>if (measuredTime > bitTime[0])\<close>: the edge in the middle of a bit. In
  \<open>bitsRemaining != (pBPSettings->togglePos+1)\<close> both sides are promoted to \<open>int\<close>, so
  the sum does not wrap at 255.
\<close>

definition bp_mid_bit :: "lirrBiPhaseSettings_t \<Rightarrow> bool \<Rightarrow> u32 \<Rightarrow> lirr_state \<Rightarrow> lirr_state option" where
  "bp_mid_bit pBPSettings pinState now s =
     (let s1 = s\<lparr>referenceTime := now\<rparr>;
          bitsRemaining = bp_bitsRemaining s1 - 1;
          s2 = s1\<lparr>bp_bitsRemaining := bitsRemaining\<rparr>;
          adds = (pinState = aceRising pBPSettings \<and> bitsRemaining \<noteq> togglePos pBPSettings)
      in
        if adds \<and> 32 \<le> unat bitsRemaining then None
        else
          let s3 = (if adds
                    then s2\<lparr>incomingCode := incomingCode s2 + push_bit (unat bitsRemaining) 1\<rparr>
                    else s2)
          in
            if bitsRemaining = 0
            then
              (if buttonState (remoteEvents s3) = BUTTON_NONE
               then Some (s3\<lparr>remoteEvents := (remoteEvents s3)
                              \<lparr>buttonCode := incomingCode s3,
                               pressTime := now,
                               toggleState := \<not> toggleState (remoteEvents s3)\<rparr>\<rparr>)
               else Some s3)
            else if unat bitsRemaining \<noteq> unat (togglePos pBPSettings) + 1
                      \<and> bitsRemaining \<noteq> togglePos pBPSettings
            then Some (s3\<lparr>bp_bitTime := To_bitTime\<rparr>)
            else Some (s3\<lparr>bp_bitTime := To_toggleTime\<rparr>))"

definition biPhaseDecode ::
  "lirrBiPhaseSettings_t \<Rightarrow> bool \<Rightarrow> u32 \<Rightarrow> lirr_state \<Rightarrow> lirr_state option" where
  "biPhaseDecode pBPSettings pinState micros s =
     (let now = micros in
        if bp_bitsRemaining s = 0
        then Some (bp_case_true pBPSettings pinState now s)
        else
          let measuredTime = now - referenceTime s in
            (case deref_bitTime pBPSettings (bp_bitTime s) of
               None \<Rightarrow> None
             | Some bt \<Rightarrow>
                 if measuredTime < ucast (snd bt)
                 then
                   (if measuredTime > ucast (fst bt)
                    then bp_mid_bit pBPSettings pinState now s
                    else Some s)
                 else Some (bp_case_true pBPSettings pinState now (s\<lparr>bp_bitsRemaining := 0\<rparr>))))"

section \<open>The interrupt service routine and the poll\<close>

text \<open>
  \<open>lirrBegin\<close> binds one descriptor and its decoding function; the pin-change interrupt
  is enabled only then, so a running session has one of the two bindings.
\<close>

datatype protocol = PulseFraction lirrPulseFractionSettings_t | BiPhase lirrBiPhaseSettings_t

definition pDecodeFunction :: "protocol \<Rightarrow> bool \<Rightarrow> u32 \<Rightarrow> lirr_state \<Rightarrow> lirr_state option" where
  "pDecodeFunction proto pinState micros s =
     (case proto of
        PulseFraction pPFSettings \<Rightarrow> pulseFractionDecode pPFSettings pinState micros s
      | BiPhase pBPSettings \<Rightarrow> biPhaseDecode pBPSettings pinState micros s)"

text \<open>\<open>ISR(PCINT2_vect)\<close> without the \<open>lirrTest\<close> instrumentation.\<close>

definition ISR_PCINT2 :: "protocol \<Rightarrow> u32 \<Rightarrow> lirr_state \<Rightarrow> lirr_state option" where
  "ISR_PCINT2 proto micros s =
     (let s1 = s\<lparr>isr_pinState := \<not> isr_pinState s\<rparr>
      in pDecodeFunction proto (isr_pinState s1) micros s1)"

text \<open>The block under \<open>case BUTTON_NONE:\<close>, also entered by falling through from \<open>BUTTON_RELEASED\<close>.\<close>

definition poll_case_none :: "lirr_state \<Rightarrow> lirr_state" where
  "poll_case_none s =
     (if buttonCode (remoteEvents s) \<noteq> 0
      then s\<lparr>remoteEvents := (remoteEvents s)\<lparr>buttonState := BUTTON_PRESSED\<rparr>\<rparr>
      else s)"

text \<open>
  \<open>lirrGetEvents\<close> as a state update. \<open>referenceTime\<close> is read with interrupts
  masked, so \<open>lastSignalTime\<close> is its value at the call; the call itself is taken as
  one step, with interrupts served between calls. A \<open>buttonState\<close> that is none of the
  four constants matches no \<open>case\<close> and the \<open>switch\<close> does nothing.
\<close>

definition lirrGetEvents_upd :: "u32 \<Rightarrow> lirr_state \<Rightarrow> lirr_state" where
  "lirrGetEvents_upd micros s =
     (let lastSignalTime = referenceTime s;
          s1 = s\<lparr>remoteEvents := (remoteEvents s)\<lparr>curTime := micros\<rparr>\<rparr>
      in
        if buttonState (remoteEvents s1) = BUTTON_PRESSED
        then s1\<lparr>remoteEvents := (remoteEvents s1)\<lparr>buttonState := BUTTON_HELD\<rparr>\<rparr>
        else if buttonState (remoteEvents s1) = BUTTON_HELD
        then
          (if curTime (remoteEvents s1) - lastSignalTime > repeatInt
           then s1\<lparr>remoteEvents := (remoteEvents s1)\<lparr>buttonState := BUTTON_RELEASED\<rparr>\<rparr>
           else s1)
        else if buttonState (remoteEvents s1) = BUTTON_RELEASED
        then poll_case_none
               (s1\<lparr>remoteEvents := (remoteEvents s1)\<lparr>buttonState := BUTTON_NONE, buttonCode := 0\<rparr>\<rparr>)
        else if buttonState (remoteEvents s1) = BUTTON_NONE
        then poll_case_none s1
        else s1)"

text \<open>The call returns a copy of \<open>remoteEvents\<close> and leaves the updated globals.\<close>

definition lirrGetEvents :: "u32 \<Rightarrow> lirr_state \<Rightarrow> remoteEvents_t \<times> lirr_state" where
  "lirrGetEvents micros s = (let s' = lirrGetEvents_upd micros s in (remoteEvents s', s'))"

section \<open>Runs of the decoders and what a well-formed frame is\<close>

text \<open>An edge is the level passed to the decoding function and the value of \<open>micros()\<close> there.\<close>

type_synonym edge = "bool \<times> u32"

fun pf_run :: "lirrPulseFractionSettings_t \<Rightarrow> edge list \<Rightarrow> lirr_state \<Rightarrow> lirr_state option" where
  "pf_run cfg [] s = Some s"
| "pf_run cfg (e # es) s =
     (case pulseFractionDecode cfg (fst e) (snd e) s of
        None \<Rightarrow> None
      | Some s' \<Rightarrow> pf_run cfg es s')"

text \<open>
  The intervals that the measuring edges of an edge sequence close, \<open>ref\<close> being the
  time the first one is measured from. In distance mode an interval runs from one
  measuring edge to the next; in width mode it runs from the latest complementary edge
  (or from the previous measuring edge when there was none in between).
\<close>

fun pf_intervals :: "lirrPulseFractionSettings_t \<Rightarrow> u32 \<Rightarrow> edge list \<Rightarrow> u32 list" where
  "pf_intervals cfg ref [] = []"
| "pf_intervals cfg ref (e # es) =
     (if fst e = distanceMode cfg
      then (snd e - ref) # pf_intervals cfg (snd e) es
      else pf_intervals cfg (if distanceMode cfg then ref else snd e) es)"

text \<open>An interval strictly inside (bitMin, bitMax).\<close>

definition pf_bit_ok :: "lirrPulseFractionSettings_t \<Rightarrow> u32 \<Rightarrow> bool" where
  "pf_bit_ok cfg d = (ucast (bitMin cfg) < d \<and> d < ucast (bitMax cfg))"

text \<open>A valid start interval: strictly inside (startMin, startMax), or start checking is disabled.\<close>

definition pf_start_ok :: "lirrPulseFractionSettings_t \<Rightarrow> u32 \<Rightarrow> bool" where
  "pf_start_ok cfg d = ((ucast (startMin cfg) < d \<and> d < ucast (startMax cfg)) \<or> startMax cfg = 0)"

text \<open>The bit an interval encodes: 1 when it exceeds the separator.\<close>

definition pf_bit :: "lirrPulseFractionSettings_t \<Rightarrow> u32 \<Rightarrow> bool" where
  "pf_bit cfg d = (ucast (bitSep cfg) < d)"

text \<open>
  The most-significant-bit-first value of a bit pattern: each bit is shifted in from the
  right, so the first bit of the pattern ends up highest.
\<close>

fun msb_first_acc :: "u32 \<Rightarrow> bool list \<Rightarrow> u32" where
  "msb_first_acc a [] = a"
| "msb_first_acc a (b # bs) = msb_first_acc (2 * a + of_bool b) bs"

definition msb_first :: "bool list \<Rightarrow> u32" where
  "msb_first bs = msb_first_acc 0 bs"

fun bp_run :: "lirrBiPhaseSettings_t \<Rightarrow> edge list \<Rightarrow> lirr_state \<Rightarrow> lirr_state option" where
  "bp_run cfg [] s = Some s"
| "bp_run cfg (e # es) s =
     (case biPhaseDecode cfg (fst e) (snd e) s of
        None \<Rightarrow> None
      | Some s' \<Rightarrow> bp_run cfg es s')"

text \<open>
  The timing pair in force while \<open>n\<close> bits remain: the start pair before the first bit,
  the toggle pair before and after the toggle position, the ordinary pair elsewhere.
\<close>

definition bp_pair :: "lirrBiPhaseSettings_t \<Rightarrow> nat \<Rightarrow> u16 \<times> u16" where
  "bp_pair cfg n =
     (if n = unat (bits cfg) then startTime cfg
      else if n = unat (togglePos cfg) + 1 \<or> n = unat (togglePos cfg) then toggleTime cfg
      else bitTime cfg)"

text \<open>
  The body of a well-formed bi-phase frame, after its starting edge at time \<open>ref\<close>, with
  \<open>n\<close> bits to come: every edge arrives before the upper bound of the pair in force;
  an edge after the lower bound is the middle of a bit, whose value is 1 when the level
  matches \<open>aceRising\<close>, except at the toggle position, whose value is left out; an earlier
  edge is the transition between two bits. The result is the bit pattern, first bit first,
  or \<open>None\<close> when the edges are not such a frame.
\<close>

fun bp_frame_bits :: "lirrBiPhaseSettings_t \<Rightarrow> nat \<Rightarrow> u32 \<Rightarrow> edge list \<Rightarrow> bool list option" where
  "bp_frame_bits cfg n ref [] = (if n = 0 then Some [] else None)"
| "bp_frame_bits cfg n ref (e # es) =
     (if n = 0 \<or> \<not> snd e - ref < ucast (snd (bp_pair cfg n)) then None
      else if ucast (fst (bp_pair cfg n)) < snd e - ref
      then map_option (\<lambda>bs. (fst e = aceRising cfg \<and> n - 1 \<noteq> unat (togglePos cfg)) # bs)
             (bp_frame_bits cfg (n - 1) (snd e) es)
      else bp_frame_bits cfg n ref es)"

section \<open>Sessions: interrupts and polls in any order\<close>

datatype event = Irq u32 | Poll u32

definition step :: "protocol \<Rightarrow> event \<Rightarrow> lirr_state \<Rightarrow> lirr_state option" where
  "step proto ev s =
     (case ev of
        Irq t \<Rightarrow> ISR_PCINT2 proto t s
      | Poll t \<Rightarrow> Some (snd (lirrGetEvents t s)))"

fun run :: "protocol \<Rightarrow> event list \<Rightarrow> lirr_state \<Rightarrow> lirr_state option" where
  "run proto [] s = Some s"
| "run proto (ev # evs) s =
     (case step proto ev s of
        None \<Rightarrow> None
      | Some s' \<Rightarrow> run proto evs s')"

text \<open>The states that successive polls at the given times return.\<close>

fun poll_states :: "u32 list \<Rightarrow> lirr_state \<Rightarrow> u8 list" where
  "poll_states [] s = []"
| "poll_states (t # ts) s =
     buttonState (fst (lirrGetEvents t s)) # poll_states ts (snd (lirrGetEvents t s))"

text \<open>How often \<open>toggleState\<close> changes along a session.\<close>

fun toggle_count :: "protocol \<Rightarrow> event list \<Rightarrow> lirr_state \<Rightarrow> nat" where
  "toggle_count proto [] s = 0"
| "toggle_count proto (ev # evs) s =
     (case step proto ev s of
        None \<Rightarrow> 0
      | Some s' \<Rightarrow>
          (if toggleState (remoteEvents s') = toggleState (remoteEvents s) then 0 else 1)
          + toggle_count proto evs s')"

text \<open>
  How many presses the polls of a session report: a poll returns \<open>BUTTON_PRESSED\<close> only
  on entering that state, since the next poll always leaves it.
\<close>

fun press_count :: "protocol \<Rightarrow> event list \<Rightarrow> lirr_state \<Rightarrow> nat" where
  "press_count proto [] s = 0"
| "press_count proto (ev # evs) s =
     (case step proto ev s of
        None \<Rightarrow> 0
      | Some s' \<Rightarrow>
          (case ev of
             Irq t \<Rightarrow> 0
           | Poll t \<Rightarrow> if buttonState (remoteEvents s') = BUTTON_PRESSED then 1 else 0)
          + press_count proto evs s')"

text \<open>A code is pending: published, and not yet picked up by a poll.\<close>

definition pending :: "lirr_state \<Rightarrow> nat" where
  "pending s =
     (if buttonState (remoteEvents s) = BUTTON_NONE \<and> buttonCode (remoteEvents s) \<noteq> 0
      then 1 else 0)"

text \<open>
  A session in which every published frame has a nonzero code and is published when no
  earlier code is stored (the polls keep up with the frames).
\<close>

fun polled_in_time :: "protocol \<Rightarrow> event list \<Rightarrow> lirr_state \<Rightarrow> bool" where
  "polled_in_time proto [] s = True"
| "polled_in_time proto (ev # evs) s =
     (case step proto ev s of
        None \<Rightarrow> True
      | Some s' \<Rightarrow>
          (toggleState (remoteEvents s') = toggleState (remoteEvents s)
             \<or> (buttonCode (remoteEvents s) = 0 \<and> buttonCode (remoteEvents s') \<noteq> 0))
          \<and> polled_in_time proto evs s')"

text \<open>
  The frame lengths for which every shift of the decoders is defined, and the decoder
  states from which no call can reach an undefined shift or the null pointer.
\<close>

definition proto_ok :: "protocol \<Rightarrow> bool" where
  "proto_ok proto =
     (case proto of
        PulseFraction cfg \<Rightarrow> unat (lirrPulseFractionSettings_t.bits cfg) \<le> 32
      | BiPhase cfg \<Rightarrow> unat (bits cfg) \<le> 32)"

definition decoder_ok :: "protocol \<Rightarrow> lirr_state \<Rightarrow> bool" where
  "decoder_ok proto s =
     (case proto of
        PulseFraction cfg \<Rightarrow> unat (pf_bitsRemaining s) \<le> 32
      | BiPhase cfg \<Rightarrow>
          unat (bp_bitsRemaining s) \<le> 32
          \<and> (bp_bitsRemaining s = 0 \<or> bp_bitTime s \<noteq> NullPtr)
          \<and> take_bit (unat (bp_bitsRemaining s)) (incomingCode s) = 0)"

text \<open>Moving every timestamp of a state by \<open>k\<close> microseconds, modulo \<open>2^32\<close>.\<close>

definition shift_time :: "u32 \<Rightarrow> lirr_state \<Rightarrow> lirr_state" where
  "shift_time k s =
     s\<lparr>referenceTime := referenceTime s + k,
       remoteEvents := (remoteEvents s)
         \<lparr>pressTime := pressTime (remoteEvents s) + k,
          curTime := curTime (remoteEvents s) + k\<rparr>\<rparr>"

section \<open>Descriptors\<close>

text \<open>Descriptors of lightIRRecv.h used below, and the one of the specification's scenario.\<close>

definition PROTOCOL_SIRC :: lirrPulseFractionSettings_t where
  "PROTOCOL_SIRC =
     \<lparr>lirrPulseFractionSettings_t.bits = 12, distanceMode = False, startMin = 2200,
      startMax = 2600, bitMin = 400, bitSep = 900, bitMax = 1400\<rparr>"

definition PROTOCOL_RC5 :: lirrBiPhaseSettings_t where
  "PROTOCOL_RC5 =
     \<lparr>bits = 13, aceRising = True, bitTime = (1578, 1978), startTime = (1578, 1978),
      toggleTime = (1578, 1978), togglePos = 11\<rparr>"

definition PROTOCOL_RC6_MODE0 :: lirrBiPhaseSettings_t where
  "PROTOCOL_RC6_MODE0 =
     \<lparr>bits = 21, aceRising = False, bitTime = (688, 1088), startTime = (3796, 4196),
      toggleTime = (1132, 1532), togglePos = 16\<rparr>"

definition scenario_descriptor :: lirrPulseFractionSettings_t where
  "scenario_descriptor =
     \<lparr>lirrPulseFractionSettings_t.bits = 4, distanceMode = True, startMin = 0,
      startMax = 0, bitMin = 400, bitSep = 700, bitMax = 1200\<rparr>"

section \<open>Feeding measured intervals\<close>

text \<open>A measuring edge that arrives \<open>d\<close> microseconds after the reference time.\<close>

definition pf_measure :: "lirrPulseFractionSettings_t \<Rightarrow> u32 \<Rightarrow> lirr_state \<Rightarrow> lirr_state option" where
  "pf_measure cfg d s = pulseFractionDecode cfg (distanceMode cfg) (referenceTime s + d) s"

text \<open>
  Bits remaining, accumulator and Event Record after each of a sequence of measuring
  edges given by their intervals.
\<close>

fun pf_trace ::
  "lirrPulseFractionSettings_t \<Rightarrow> u32 list \<Rightarrow> lirr_state \<Rightarrow> (u8 \<times> u32 \<times> remoteEvents_t) list" where
  "pf_trace cfg [] s = []"
| "pf_trace cfg (d # ds) s =
     (case pf_measure cfg d s of
        None \<Rightarrow> []
      | Some s' \<Rightarrow> (pf_bitsRemaining s', incomingCode s', remoteEvents s') # pf_trace cfg ds s')"

text \<open>
  The interrupts of one frame for \<open>scenario_descriptor\<close>, first edge at time \<open>t\<close>:
  a start edge, then the bits 1, 0, 1, 0 as distances of 800, 500, 900 and 500
  microseconds between rising edges, each followed by its falling edge.
\<close>

definition scenario_frame :: "u32 \<Rightarrow> event list" where
  "scenario_frame t =
     [Irq t, Irq (t + 200), Irq (t + 800), Irq (t + 1000), Irq (t + 1300), Irq (t + 1500),
      Irq (t + 2200), Irq (t + 2400), Irq (t + 2700), Irq (t + 2900)]"

text \<open>
  Elapsed time as a number: the unsigned 32-bit modular difference of two readings of
  the microsecond counter.
\<close>

definition elapsed :: "u32 \<Rightarrow> u32 \<Rightarrow> nat" where
  "elapsed now ref = (unat now + 2 ^ 32 - unat ref) mod 2 ^ 32"

section \<open>Most-significant-bit-first assembly\<close>

lemma msb_first_acc_horner:
  "msb_first_acc a bs = a * 2 ^ length bs + horner_sum of_bool 2 (rev bs)"
  by (induction bs arbitrary: a) (simp_all add: horner_sum_append algebra_simps)

lemma msb_first_horner: "msb_first bs = horner_sum of_bool 2 (rev bs)"
  by (simp add: msb_first_def msb_first_acc_horner)

lemma bit_msb_first:
  "bit (msb_first bs) i \<longleftrightarrow> i < 32 \<and> i < length bs \<and> bs ! (length bs - 1 - i)"
  by (auto simp add: msb_first_horner bit_horner_sum_bit_word_iff rev_nth)

lemma msb_first_Nil: "msb_first [] = 0"
  by (simp add: msb_first_def)

lemma msb_first_Cons:
  "msb_first (b # bs) = (if b then push_bit (length bs) 1 else 0) OR msb_first bs"
proof (rule bit_eqI)
  fix i
  show "bit (msb_first (b # bs)) i = bit ((if b then push_bit (length bs) 1 else 0) OR msb_first bs) i"
    by (cases "i = length bs")
       (auto simp add: bit_msb_first bit_or_iff bit_exp_iff nth_Cons' possible_bit_word)
qed

section \<open>Pulse-fraction frames\<close>

lemma pf_nonmeasuring:
  "p \<noteq> distanceMode cfg \<Longrightarrow>
   pulseFractionDecode cfg p t s =
     Some (s\<lparr>referenceTime := (if distanceMode cfg then referenceTime s else t)\<rparr>)"
  by (simp add: pulseFractionDecode_def)

lemma pf_accept_bit:
  assumes "pf_bitsRemaining s \<noteq> 0" and "pf_bit_ok cfg (t - referenceTime s)"
    and "unat (pf_bitsRemaining s) \<le> 32"
  shows "pulseFractionDecode cfg (distanceMode cfg) t s =
     Some (let c = (if pf_bit cfg (t - referenceTime s)
                    then incomingCode s OR push_bit (unat (pf_bitsRemaining s) - 1) 1
                    else incomingCode s)
           in s\<lparr>referenceTime := t, pf_bitsRemaining := pf_bitsRemaining s - 1,
                incomingCode := c,
                remoteEvents :=
                  (if pf_bitsRemaining s = 1 \<and> buttonState (remoteEvents s) = BUTTON_NONE
                   then (remoteEvents s)\<lparr>buttonCode := c, pressTime := t,
                          toggleState := \<not> toggleState (remoteEvents s)\<rparr>
                   else remoteEvents s)\<rparr>)"
proof -
  have u: "unat (pf_bitsRemaining s - 1) = unat (pf_bitsRemaining s) - 1"
    using assms(1) by (simp add: unat_minus_one)
  have z: "(pf_bitsRemaining s - 1 = 0) = (pf_bitsRemaining s = 1)"
    by auto
  have lt: "unat (pf_bitsRemaining s) - 1 < 32"
    using assms(1,3) by (metis One_nat_def Suc_pred le_imp_less_Suc not_less_eq unat_gt_0 less_Suc_eq_le)
  show ?thesis
    using assms(1,2) lt
    by (simp add: pulseFractionDecode_def pf_case_false_def pf_bit_ok_def pf_bit_def Let_def u z)
qed

lemma pf_reject:
  assumes "pf_bitsRemaining s = 0 \<or> \<not> pf_bit_ok cfg (t - referenceTime s)"
  shows "pulseFractionDecode cfg (distanceMode cfg) t s =
     Some (if pf_start_ok cfg (t - referenceTime s)
           then s\<lparr>referenceTime := t, pf_bitsRemaining := lirrPulseFractionSettings_t.bits cfg,
                  incomingCode := 0\<rparr>
           else s\<lparr>referenceTime := t, pf_bitsRemaining := 0\<rparr>)"
  using assms
  by (auto simp add: pulseFractionDecode_def pf_case_false_def pf_case_true_def pf_bit_ok_def
        pf_start_ok_def Let_def)

lemma pf_run_bits:
  assumes "unat (pf_bitsRemaining s) = length ds"
    and "pf_intervals cfg (referenceTime s) es = ds"
    and "list_all (pf_bit_ok cfg) ds"
    and "length ds \<le> 32"
  shows "\<exists>s'. pf_run cfg es s = Some s'
           \<and> pf_bitsRemaining s' = 0
           \<and> incomingCode s' = incomingCode s OR msb_first (map (pf_bit cfg) ds)
           \<and> buttonState (remoteEvents s') = buttonState (remoteEvents s)
           \<and> buttonCode (remoteEvents s') =
               (if ds \<noteq> [] \<and> buttonState (remoteEvents s) = BUTTON_NONE
                then incomingCode s' else buttonCode (remoteEvents s))"
  using assms
proof (induction es arbitrary: s ds)
  case Nil
  then show ?case by (simp add: msb_first_Nil unat_eq_zero)
next
  case (Cons e es)
  show ?case
  proof (cases "fst e = distanceMode cfg")
    case False
    define s1 where "s1 = s\<lparr>referenceTime := (if distanceMode cfg then referenceTime s else snd e)\<rparr>"
    have step: "pulseFractionDecode cfg (fst e) (snd e) s = Some s1"
      using False by (simp add: pf_nonmeasuring s1_def)
    have iv: "pf_intervals cfg (referenceTime s1) es = ds"
      using Cons.prems(2) False by (simp add: s1_def)
    have "unat (pf_bitsRemaining s1) = length ds"
      using Cons.prems(1) by (simp add: s1_def)
    moreover have "remoteEvents s1 = remoteEvents s" "incomingCode s1 = incomingCode s"
      by (simp_all add: s1_def)
    ultimately show ?thesis
      using Cons.IH[OF _ iv Cons.prems(3,4)] by (simp add: step cong: if_cong)
  next
    case True
    then obtain d ds' where ds: "ds = d # ds'" and d: "d = snd e - referenceTime s"
      and iv: "pf_intervals cfg (snd e) es = ds'"
      using Cons.prems(2) by auto
    have nz: "pf_bitsRemaining s \<noteq> 0"
      using Cons.prems(1) ds by auto
    have ok: "pf_bit_ok cfg (snd e - referenceTime s)"
      using Cons.prems(3) ds d by simp
    have le: "unat (pf_bitsRemaining s) \<le> 32"
      using Cons.prems(1,4) by simp
    define c where "c = (if pf_bit cfg d then incomingCode s OR push_bit (length ds') 1 else incomingCode s)"
    define s1 where "s1 = s\<lparr>referenceTime := snd e, pf_bitsRemaining := pf_bitsRemaining s - 1,
                incomingCode := c,
                remoteEvents :=
                  (if pf_bitsRemaining s = 1 \<and> buttonState (remoteEvents s) = BUTTON_NONE
                   then (remoteEvents s)\<lparr>buttonCode := c, pressTime := snd e,
                          toggleState := \<not> toggleState (remoteEvents s)\<rparr>
                   else remoteEvents s)\<rparr>"
    have len: "unat (pf_bitsRemaining s) - 1 = length ds'"
      using Cons.prems(1) ds by simp
    have step: "pulseFractionDecode cfg (fst e) (snd e) s = Some s1"
      unfolding s1_def c_def d len[symmetric]
      using pf_accept_bit[OF nz ok le] True by (simp add: Let_def)
    have one: "(pf_bitsRemaining s = 1) = (ds' = [])"
      using Cons.prems(1) ds by (simp add: word_unat_eq_iff)
    have a1: "unat (pf_bitsRemaining s1) = length ds'"
      using nz len by (simp add: s1_def unat_minus_one)
    have a2: "pf_intervals cfg (referenceTime s1) es = ds'"
      using iv by (simp add: s1_def)
    have a3: "list_all (pf_bit_ok cfg) ds'" using Cons.prems(3) ds by simp
    have a4: "length ds' \<le> 32" using Cons.prems(4) ds by simp
    from Cons.IH[OF a1 a2 a3 a4] obtain s' where
      r: "pf_run cfg es s1 = Some s'" "pf_bitsRemaining s' = 0"
         "incomingCode s' = incomingCode s1 OR msb_first (map (pf_bit cfg) ds')"
         "buttonState (remoteEvents s') = buttonState (remoteEvents s1)"
         "buttonCode (remoteEvents s') =
               (if ds' \<noteq> [] \<and> buttonState (remoteEvents s1) = BUTTON_NONE
                then incomingCode s' else buttonCode (remoteEvents s1))"
      by blast
    have code: "incomingCode s' = incomingCode s OR msb_first (map (pf_bit cfg) ds)"
      using r(3) by (simp add: s1_def c_def ds msb_first_Cons or.assoc)
    have st: "buttonState (remoteEvents s1) = buttonState (remoteEvents s)"
      by (simp add: s1_def)
    have bc: "buttonCode (remoteEvents s') =
               (if buttonState (remoteEvents s) = BUTTON_NONE
                then incomingCode s' else buttonCode (remoteEvents s))"
    proof (cases "ds' = []")
      case True
      then have "incomingCode s' = c" using r(3) by (simp add: s1_def msb_first_Nil)
      then show ?thesis using r(5) True one by (simp add: s1_def)
    next
      case False
      then show ?thesis using r(5) one by (simp add: s1_def)
    qed
    show ?thesis
      using r(1,2,4) code bc st by (simp add: step ds)
  qed
qed

lemma pf_run_frame:
  assumes "pf_bitsRemaining s = 0 \<or> (\<exists>d ds0. ivs = d # ds0 \<and> \<not> pf_bit_ok cfg d)"
    and "pf_intervals cfg (referenceTime s) es = ivs"
    and "dropWhile (\<lambda>d. \<not> pf_start_ok cfg d) ivs = d0 # ds"
    and "length ds = unat (lirrPulseFractionSettings_t.bits cfg)"
    and "list_all (pf_bit_ok cfg) ds"
    and "length ds \<le> 32"
  shows "\<exists>s'. pf_run cfg es s = Some s'
           \<and> pf_bitsRemaining s' = 0
           \<and> incomingCode s' = msb_first (map (pf_bit cfg) ds)
           \<and> buttonState (remoteEvents s') = buttonState (remoteEvents s)
           \<and> buttonCode (remoteEvents s') =
               (if ds \<noteq> [] \<and> buttonState (remoteEvents s) = BUTTON_NONE
                then incomingCode s' else buttonCode (remoteEvents s))"
  using assms(1,2,3)
proof (induction es arbitrary: s ivs)
  case Nil
  then show ?case by simp
next
  case (Cons e es)
  show ?case
  proof (cases "fst e = distanceMode cfg")
    case False
    define s1 where "s1 = s\<lparr>referenceTime := (if distanceMode cfg then referenceTime s else snd e)\<rparr>"
    have step: "pulseFractionDecode cfg (fst e) (snd e) s = Some s1"
      using False by (simp add: pf_nonmeasuring s1_def)
    have iv: "pf_intervals cfg (referenceTime s1) es = ivs"
      using Cons.prems(2) False by (simp add: s1_def)
    have "pf_bitsRemaining s1 = 0 \<or> (\<exists>d ds0. ivs = d # ds0 \<and> \<not> pf_bit_ok cfg d)"
      using Cons.prems(1) by (simp add: s1_def)
    moreover have "remoteEvents s1 = remoteEvents s"
      by (simp add: s1_def)
    ultimately show ?thesis
      using Cons.IH[OF _ iv Cons.prems(3)] by (simp add: step cong: if_cong)
  next
    case True
    then obtain d ivs' where ivs: "ivs = d # ivs'" and d: "d = snd e - referenceTime s"
      and iv: "pf_intervals cfg (snd e) es = ivs'"
      using Cons.prems(2) by auto
    have rej: "pf_bitsRemaining s = 0 \<or> \<not> pf_bit_ok cfg (snd e - referenceTime s)"
      using Cons.prems(1) ivs d by auto
    note step = pf_reject[OF rej, of ]
    show ?thesis
    proof (cases "pf_start_ok cfg d")
      case ok: True
      define s1 where "s1 = s\<lparr>referenceTime := snd e,
          pf_bitsRemaining := lirrPulseFractionSettings_t.bits cfg, incomingCode := 0\<rparr>"
      have st: "pulseFractionDecode cfg (fst e) (snd e) s = Some s1"
        using step ok True d by (simp add: s1_def)
      have eq: "ivs' = ds" using Cons.prems(3) ivs ok by simp
      have a1: "unat (pf_bitsRemaining s1) = length ds" using assms(4) by (simp add: s1_def)
      have a2: "pf_intervals cfg (referenceTime s1) es = ds" using iv eq by (simp add: s1_def)
      have "remoteEvents s1 = remoteEvents s" "incomingCode s1 = 0"
        by (simp_all add: s1_def)
      then show ?thesis
        using pf_run_bits[OF a1 a2 assms(5,6)] by (simp add: st cong: if_cong)
    next
      case bad: False
      define s1 where "s1 = s\<lparr>referenceTime := snd e, pf_bitsRemaining := 0\<rparr>"
      have st: "pulseFractionDecode cfg (fst e) (snd e) s = Some s1"
        using step bad True d by (simp add: s1_def)
      have a1: "pf_bitsRemaining s1 = 0 \<or> (\<exists>d ds0. ivs' = d # ds0 \<and> \<not> pf_bit_ok cfg d)"
        by (simp add: s1_def)
      have a2: "pf_intervals cfg (referenceTime s1) es = ivs'" using iv by (simp add: s1_def)
      have a3: "dropWhile (\<lambda>d. \<not> pf_start_ok cfg d) ivs' = d0 # ds"
        using Cons.prems(3) ivs bad by simp
      have "remoteEvents s1 = remoteEvents s"
        by (simp add: s1_def)
      then show ?thesis
        using Cons.IH[OF a1 a2 a3] by (simp add: st cong: if_cong)
    qed
  qed
qed

section \<open>C1: a well-formed pulse-fraction frame decodes to its bit pattern\<close>

text \<open>
  C1. Let no frame be in progress, and let the measuring edges of an edge sequence close
  the intervals \<open>d0 # ds\<close>: a valid start interval \<open>d0\<close>, then one interval per bit of
  the frame, each strictly inside (bitMin, bitMax). For every descriptor of at most 32
  bits (the width of the accumulator, beyond which \<open>1UL << bitsRemaining\<close> is not
  defined) \<open>pulseFractionDecode\<close> runs through the edges without fault and completes the
  frame: no bits remain, the accumulator is the most-significant-bit-first value of the
  pattern, bit \<open>i\<close> of it is set exactly when the interval received with \<open>i\<close> bits still
  to come exceeds bitSep, and the code is published when the Event Record is in state
  NONE.
\<close>

theorem pulseFraction_roundtrip:
  assumes "pf_bitsRemaining s = 0"
    and "pf_intervals cfg (referenceTime s) es = d0 # ds"
    and "pf_start_ok cfg d0"
    and "length ds = unat (lirrPulseFractionSettings_t.bits cfg)"
    and "list_all (pf_bit_ok cfg) ds"
    and "unat (lirrPulseFractionSettings_t.bits cfg) \<le> 32"
  shows "\<exists>s'. pf_run cfg es s = Some s'
           \<and> pf_bitsRemaining s' = 0
           \<and> incomingCode s' = msb_first (map (pf_bit cfg) ds)
           \<and> (\<forall>i. bit (incomingCode s') i
                 = (i < length ds \<and> ucast (bitSep cfg) < ds ! (length ds - 1 - i)))
           \<and> buttonCode (remoteEvents s') =
               (if ds \<noteq> [] \<and> buttonState (remoteEvents s) = BUTTON_NONE
                then msb_first (map (pf_bit cfg) ds) else buttonCode (remoteEvents s))"
proof -
  have dw: "dropWhile (\<lambda>d. \<not> pf_start_ok cfg d) (d0 # ds) = d0 # ds"
    using assms(3) by simp
  have le: "length ds \<le> 32"
    using assms(4,6) by simp
  from pf_run_frame[OF disjI1[OF assms(1)] assms(2) dw assms(4,5) le]
  obtain s' where r: "pf_run cfg es s = Some s'" "pf_bitsRemaining s' = 0"
      "incomingCode s' = msb_first (map (pf_bit cfg) ds)"
      "buttonCode (remoteEvents s') =
         (if ds \<noteq> [] \<and> buttonState (remoteEvents s) = BUTTON_NONE
          then incomingCode s' else buttonCode (remoteEvents s))"
    by blast
  have "bit (incomingCode s') i
          = (i < length ds \<and> ucast (bitSep cfg) < ds ! (length ds - 1 - i))" for i
    using le by (auto simp add: r(3) bit_msb_first pf_bit_def)
  then show ?thesis
    using r by simp
qed

theorem pulseFraction_roundtrip_witness:
  "\<exists>s'. pf_run scenario_descriptor
           [(True, 800), (False, 1000), (True, 1600), (True, 2100), (True, 3000), (True, 3500)]
           lirr_init = Some s'
        \<and> pf_bitsRemaining s' = 0
        \<and> incomingCode s' = 10
        \<and> buttonCode (remoteEvents s') = 10"
proof -
  let ?es = "[(True, 800), (False, 1000), (True, 1600), (True, 2100), (True, 3000), (True, 3500)]"
  let ?ds = "[800, 500, 900, 500] :: u32 list"
  have h1: "pf_bitsRemaining lirr_init = 0"
    by (simp add: lirr_init_def)
  have h2: "pf_intervals scenario_descriptor (referenceTime lirr_init) ?es = 800 # ?ds"
    by (simp add: scenario_descriptor_def lirr_init_def)
  have h3: "pf_start_ok scenario_descriptor 800"
    by (simp add: scenario_descriptor_def pf_start_ok_def)
  have h4: "length ?ds = unat (lirrPulseFractionSettings_t.bits scenario_descriptor)"
    by (simp add: scenario_descriptor_def)
  have h5: "list_all (pf_bit_ok scenario_descriptor) ?ds"
    by (simp add: scenario_descriptor_def pf_bit_ok_def)
  have h6: "unat (lirrPulseFractionSettings_t.bits scenario_descriptor) \<le> 32"
    by (simp add: scenario_descriptor_def)
  have v: "msb_first (map (pf_bit scenario_descriptor) ?ds) = 10"
    by (simp add: scenario_descriptor_def pf_bit_def msb_first_def)
  have n: "buttonState (remoteEvents lirr_init) = BUTTON_NONE"
    by (simp add: lirr_init_def)
  from pulseFraction_roundtrip [OF h1 h2 h3 h4 h5 h6] show ?thesis
    unfolding v using n by auto
qed

section \<open>The poll\<close>

lemmas button_defs = BUTTON_NONE_def BUTTON_PRESSED_def BUTTON_HELD_def BUTTON_RELEASED_def

lemma poll_idle:
  "buttonState (remoteEvents s) = BUTTON_NONE \<Longrightarrow> buttonCode (remoteEvents s) = 0 \<Longrightarrow>
   lirrGetEvents_upd t s = s\<lparr>remoteEvents := (remoteEvents s)\<lparr>curTime := t\<rparr>\<rparr>"
  by (simp add: lirrGetEvents_upd_def poll_case_none_def button_defs)

lemma poll_states_idle:
  "buttonState (remoteEvents s) = BUTTON_NONE \<Longrightarrow> buttonCode (remoteEvents s) = 0 \<Longrightarrow>
   poll_states ts s = replicate (length ts) BUTTON_NONE"
  by (induction ts arbitrary: s) (simp_all add: lirrGetEvents_def poll_idle)

lemma poll_released:
  "buttonState (remoteEvents s) = BUTTON_RELEASED \<Longrightarrow>
   lirrGetEvents_upd t s =
     s\<lparr>remoteEvents := (remoteEvents s)\<lparr>curTime := t, buttonState := BUTTON_NONE, buttonCode := 0\<rparr>\<rparr>"
  by (simp add: lirrGetEvents_upd_def poll_case_none_def button_defs)

lemma poll_held:
  "buttonState (remoteEvents s) = BUTTON_HELD \<Longrightarrow>
   lirrGetEvents_upd t s =
     s\<lparr>remoteEvents := (remoteEvents s)\<lparr>curTime := t,
         buttonState := (if repeatInt < t - referenceTime s then BUTTON_RELEASED else BUTTON_HELD)\<rparr>\<rparr>"
  by (simp add: lirrGetEvents_upd_def poll_case_none_def button_defs)

lemma poll_pressed:
  "buttonState (remoteEvents s) = BUTTON_PRESSED \<Longrightarrow>
   lirrGetEvents_upd t s =
     s\<lparr>remoteEvents := (remoteEvents s)\<lparr>curTime := t, buttonState := BUTTON_HELD\<rparr>\<rparr>"
  by (simp add: lirrGetEvents_upd_def poll_case_none_def button_defs)

lemma poll_pending:
  "buttonState (remoteEvents s) = BUTTON_NONE \<Longrightarrow> buttonCode (remoteEvents s) \<noteq> 0 \<Longrightarrow>
   lirrGetEvents_upd t s =
     s\<lparr>remoteEvents := (remoteEvents s)\<lparr>curTime := t, buttonState := BUTTON_PRESSED\<rparr>\<rparr>"
  by (simp add: lirrGetEvents_upd_def poll_case_none_def button_defs)

lemma poll_states_released:
  "buttonState (remoteEvents s) = BUTTON_RELEASED \<Longrightarrow>
   poll_states ts s = replicate (length ts) BUTTON_NONE"
  by (cases ts) (simp_all add: lirrGetEvents_def poll_released poll_states_idle)

lemma poll_states_held:
  "buttonState (remoteEvents s) = BUTTON_HELD \<Longrightarrow>
   list_all (\<lambda>t. repeatInt < t - referenceTime s) ts \<Longrightarrow> length ts \<le> n \<Longrightarrow>
   poll_states ts s = take (length ts) (BUTTON_RELEASED # replicate n BUTTON_NONE)"
  by (cases ts) (simp_all add: lirrGetEvents_def poll_held poll_states_released min_def)

lemma poll_states_pressed:
  "buttonState (remoteEvents s) = BUTTON_PRESSED \<Longrightarrow>
   list_all (\<lambda>t. repeatInt < t - referenceTime s) ts \<Longrightarrow> length ts \<le> n \<Longrightarrow>
   poll_states ts s =
     take (length ts) (BUTTON_HELD # BUTTON_RELEASED # replicate n BUTTON_NONE)"
  by (cases ts) (simp_all add: lirrGetEvents_def poll_pressed poll_states_held [where n = n])

section \<open>Single calls of the decoders\<close>

lemma pf_idle_total:
  "pf_bitsRemaining s = 0 \<Longrightarrow> \<exists>y. pulseFractionDecode cfg p t s = Some y"
  by (simp add: pulseFractionDecode_def Let_def)

lemma bp_idle_total:
  "bp_bitsRemaining s = 0 \<Longrightarrow> \<exists>y. biPhaseDecode cfg p t s = Some y"
  by (simp add: biPhaseDecode_def Let_def)

lemma pf_final_bit:
  assumes "pf_bitsRemaining s = 1" and "pf_bit_ok cfg (t - referenceTime s)"
  shows "pulseFractionDecode cfg (distanceMode cfg) t s =
     Some (let c = (if pf_bit cfg (t - referenceTime s) then incomingCode s OR 1 else incomingCode s)
           in s\<lparr>referenceTime := t, pf_bitsRemaining := 0, incomingCode := c,
                remoteEvents :=
                  (if buttonState (remoteEvents s) = BUTTON_NONE
                   then (remoteEvents s)\<lparr>buttonCode := c, pressTime := t,
                          toggleState := \<not> toggleState (remoteEvents s)\<rparr>
                   else remoteEvents s)\<rparr>)"
  using assms
  by (simp add: pulseFractionDecode_def pf_case_false_def pf_bit_ok_def pf_bit_def Let_def)

lemma bp_final_bit:
  assumes "bp_bitsRemaining s = 1" and "deref_bitTime cfg (bp_bitTime s) = Some bt"
    and "ucast (fst bt) < t - referenceTime s" and "t - referenceTime s < ucast (snd bt)"
  shows "biPhaseDecode cfg p t s =
     Some (let c = (if p = aceRising cfg \<and> togglePos cfg \<noteq> 0 then incomingCode s + 1
                    else incomingCode s)
           in s\<lparr>referenceTime := t, bp_bitsRemaining := 0, incomingCode := c,
                remoteEvents :=
                  (if buttonState (remoteEvents s) = BUTTON_NONE
                   then (remoteEvents s)\<lparr>buttonCode := c, pressTime := t,
                          toggleState := \<not> toggleState (remoteEvents s)\<rparr>
                   else remoteEvents s)\<rparr>)"
  using assms
  by (auto simp add: biPhaseDecode_def bp_mid_bit_def Let_def)

section \<open>Clock offsets and boundary intervals\<close>

lemma unat_ucast_u16: "unat (ucast (a :: u16) :: u32) = unat a"
proof -
  have "unat a < 2 ^ 16" using unsigned_less [of a, where 'a = nat] by simp
  then have "unat a < 2 ^ 32" by simp
  then show ?thesis
    by (simp add: unsigned_ucast_eq take_bit_nat_eq_self)
qed

lemma ucast_u16_less: "(ucast (a :: u16) :: u32) < ucast (b :: u16) \<longleftrightarrow> a < b"
  by (simp add: word_less_nat_alt unat_ucast_u16)

lemma pf_shift:
  "pulseFractionDecode cfg p (t + k) (shift_time k s)
     = map_option (shift_time k) (pulseFractionDecode cfg p t s)"
  by (simp add: pulseFractionDecode_def pf_case_false_def pf_case_true_def shift_time_def Let_def)

lemma bp_shift:
  "biPhaseDecode cfg p (t + k) (shift_time k s)
     = map_option (shift_time k) (biPhaseDecode cfg p t s)"
  by (simp add: biPhaseDecode_def bp_mid_bit_def bp_case_true_def shift_time_def Let_def
        split: option.split)

lemma poll_shift:
  "lirrGetEvents_upd (t + k) (shift_time k s) = shift_time k (lirrGetEvents_upd t s)"
  by (simp add: lirrGetEvents_upd_def poll_case_none_def shift_time_def Let_def)

lemma pf_idle_upd: "pf_bitsRemaining s = 0 \<Longrightarrow> s\<lparr>pf_bitsRemaining := 0\<rparr> = s"
  by (cases s) simp

lemma pf_at_bit_bound:
  assumes "d = ucast (bitMin cfg) \<or> d = ucast (bitMax cfg)"
  shows "pulseFractionDecode cfg (distanceMode cfg) (referenceTime s + d) s
     = Some (pf_case_true cfg d (s\<lparr>referenceTime := referenceTime s + d, pf_bitsRemaining := 0\<rparr>))"
proof (cases "pf_bitsRemaining s = 0")
  case True
  then have eq: "s\<lparr>referenceTime := referenceTime s + d, pf_bitsRemaining := 0\<rparr>
               = s\<lparr>referenceTime := referenceTime s + d\<rparr>"
    by (cases s) simp
  show ?thesis
    unfolding eq using True by (simp add: pulseFractionDecode_def Let_def)
next
  case False
  then show ?thesis
    using assms by (auto simp add: pulseFractionDecode_def pf_case_false_def Let_def)
qed

lemma pf_at_separator:
  "\<exists>s'. pulseFractionDecode cfg (distanceMode cfg) (referenceTime s + ucast (bitSep cfg)) s = Some s'
        \<and> (incomingCode s' = incomingCode s \<or> incomingCode s' = 0)"
  by (simp add: pulseFractionDecode_def pf_case_false_def pf_case_true_def Let_def)

lemma pf_at_start_bound:
  "pf_bitsRemaining s = 0 \<Longrightarrow> startMax cfg \<noteq> 0 \<Longrightarrow>
   d = ucast (startMin cfg) \<or> d = ucast (startMax cfg) \<Longrightarrow>
   pulseFractionDecode cfg (distanceMode cfg) (referenceTime s + d) s
     = Some (s\<lparr>referenceTime := referenceTime s + d\<rparr>)"
  by (auto simp add: pulseFractionDecode_def pf_case_true_def Let_def)

lemma bp_at_upper_bound:
  "bp_bitsRemaining s \<noteq> 0 \<Longrightarrow> deref_bitTime cfg (bp_bitTime s) = Some bt \<Longrightarrow>
   biPhaseDecode cfg p (referenceTime s + ucast (snd bt)) s
     = Some (bp_case_true cfg p (referenceTime s + ucast (snd bt)) (s\<lparr>bp_bitsRemaining := 0\<rparr>))"
  by (simp add: biPhaseDecode_def Let_def)

lemma bp_at_lower_bound:
  "bp_bitsRemaining s \<noteq> 0 \<Longrightarrow> deref_bitTime cfg (bp_bitTime s) = Some bt \<Longrightarrow>
   fst bt < snd bt \<Longrightarrow>
   biPhaseDecode cfg p (referenceTime s + ucast (fst bt)) s = Some s"
  by (simp add: biPhaseDecode_def Let_def ucast_u16_less)

lemma poll_at_repeatInt:
  "buttonState (remoteEvents s) = BUTTON_HELD \<Longrightarrow>
   buttonState (fst (lirrGetEvents (referenceTime s + repeatInt) s)) = BUTTON_HELD"
  by (simp add: lirrGetEvents_def poll_held)

lemma unat_diff_elapsed: "unat (t - r) = elapsed t (r :: u32)"
proof -
  have bt: "unat t < 4294967296" and br: "unat r < 4294967296"
    using unsigned_less [of t, where 'a = nat] unsigned_less [of r, where 'a = nat] by simp_all
  show ?thesis
  proof (cases "unat r \<le> unat t")
    case True
    then have e: "unat t + 4294967296 - unat r = (unat t - unat r) + 4294967296"
      by simp
    have "unat t - unat r < 4294967296"
      using bt by simp
    then have "(unat t + 4294967296 - unat r) mod 4294967296 = unat t - unat r"
      unfolding e by simp
    then show ?thesis
      using True by (simp add: elapsed_def unat_sub_if')
  next
    case False
    then have "unat t + 4294967296 - unat r < 4294967296"
      using br by simp
    then have "(unat t + 4294967296 - unat r) mod 4294967296 = unat t + 4294967296 - unat r"
      by simp
    then show ?thesis
      using False by (simp add: elapsed_def unat_sub_if')
  qed
qed

lemma u16_less_elapsed: "(ucast (a :: u16) < t - r) = (unat a < elapsed t r)"
  by (simp add: word_less_nat_alt unat_ucast_u16 unat_diff_elapsed)

lemma elapsed_less_u16: "(t - r < ucast (a :: u16)) = (elapsed t r < unat a)"
  by (simp add: word_less_nat_alt unat_ucast_u16 unat_diff_elapsed)

lemma u32_less_elapsed: "(a < t - r) = (unat a < elapsed t r)"
  by (simp add: word_less_nat_alt unat_diff_elapsed)

lemma elapsed_of_duration: "D < 2 ^ 32 \<Longrightarrow> elapsed (r + of_nat D) r = D"
proof -
  assume a: "D < 2 ^ 32"
  have "(r + of_nat D) - r = (of_nat D :: u32)"
    by simp
  then have "elapsed (r + of_nat D) r = unat (of_nat D :: u32)"
    unfolding unat_diff_elapsed [symmetric] by simp
  also have "\<dots> = D"
    using a by (simp add: unat_of_nat)
  finally show ?thesis .
qed

lemma pf_decision:
  "pulseFractionDecode cfg (distanceMode cfg) t s =
     (if pf_bitsRemaining s \<noteq> 0
          \<and> unat (bitMin cfg) < elapsed t (referenceTime s)
          \<and> elapsed t (referenceTime s) < unat (bitMax cfg)
      then
        (if unat (bitSep cfg) < elapsed t (referenceTime s)
              \<and> 32 \<le> unat (pf_bitsRemaining s - 1)
         then None
         else Some
           (let c = (if unat (bitSep cfg) < elapsed t (referenceTime s)
                     then incomingCode s OR push_bit (unat (pf_bitsRemaining s - 1)) 1
                     else incomingCode s)
            in s\<lparr>referenceTime := t, pf_bitsRemaining := pf_bitsRemaining s - 1,
                 incomingCode := c,
                 remoteEvents :=
                   (if pf_bitsRemaining s - 1 = 0 \<and> buttonState (remoteEvents s) = BUTTON_NONE
                    then (remoteEvents s)\<lparr>buttonCode := c, pressTime := t,
                           toggleState := \<not> toggleState (remoteEvents s)\<rparr>
                    else remoteEvents s)\<rparr>))
      else Some
        (if (unat (startMin cfg) < elapsed t (referenceTime s)
               \<and> elapsed t (referenceTime s) < unat (startMax cfg))
             \<or> startMax cfg = 0
         then s\<lparr>referenceTime := t,
                pf_bitsRemaining := lirrPulseFractionSettings_t.bits cfg, incomingCode := 0\<rparr>
         else s\<lparr>referenceTime := t, pf_bitsRemaining := 0\<rparr>))"
proof (cases "pf_bitsRemaining s = 0 \<or> \<not> pf_bit_ok cfg (t - referenceTime s)")
  case True
  have c: "(pf_bitsRemaining s \<noteq> 0
          \<and> unat (bitMin cfg) < elapsed t (referenceTime s)
          \<and> elapsed t (referenceTime s) < unat (bitMax cfg)) = False"
    using True by (auto simp add: pf_bit_ok_def u16_less_elapsed elapsed_less_u16)
  show ?thesis
    unfolding c using pf_reject [OF True]
    by (simp add: pf_start_ok_def u16_less_elapsed elapsed_less_u16)
next
  case False
  then have nz: "pf_bitsRemaining s \<noteq> 0" and ok: "pf_bit_ok cfg (t - referenceTime s)"
    by simp_all
  show ?thesis
    using nz ok
    by (simp add: pulseFractionDecode_def pf_case_false_def pf_bit_ok_def Let_def
          u16_less_elapsed elapsed_less_u16)
qed

lemma bp_decision:
  "biPhaseDecode cfg p t s =
     (if bp_bitsRemaining s = 0 then Some (bp_case_true cfg p t s)
      else
        (case deref_bitTime cfg (bp_bitTime s) of
           None \<Rightarrow> None
         | Some bt \<Rightarrow>
             if elapsed t (referenceTime s) < unat (snd bt)
             then (if unat (fst bt) < elapsed t (referenceTime s)
                   then bp_mid_bit cfg p t s else Some s)
             else Some (bp_case_true cfg p t (s\<lparr>bp_bitsRemaining := 0\<rparr>))))"
  by (simp add: biPhaseDecode_def Let_def u16_less_elapsed elapsed_less_u16 split: option.split)

lemma poll_decision:
  "snd (lirrGetEvents t s) =
     s\<lparr>remoteEvents := (remoteEvents s)
        \<lparr>curTime := t,
         buttonState :=
           (if buttonState (remoteEvents s) = BUTTON_PRESSED then BUTTON_HELD
            else if buttonState (remoteEvents s) = BUTTON_HELD
            then (if unat repeatInt < elapsed t (referenceTime s)
                  then BUTTON_RELEASED else BUTTON_HELD)
            else if buttonState (remoteEvents s) = BUTTON_RELEASED then BUTTON_NONE
            else if buttonState (remoteEvents s) = BUTTON_NONE
                    \<and> buttonCode (remoteEvents s) \<noteq> 0
            then BUTTON_PRESSED
            else buttonState (remoteEvents s)),
         buttonCode :=
           (if buttonState (remoteEvents s) = BUTTON_RELEASED then 0
            else buttonCode (remoteEvents s))\<rparr>\<rparr>"
  by (simp add: lirrGetEvents_def lirrGetEvents_upd_def poll_case_none_def button_defs Let_def
        u32_less_elapsed)

lemma offsets_and_bounds:
  "pulseFractionDecode cfg p (t + k) (shift_time k s)
       = map_option (shift_time k) (pulseFractionDecode cfg p t s)
   \<and> biPhaseDecode bcfg p (t + k) (shift_time k s)
       = map_option (shift_time k) (biPhaseDecode bcfg p t s)
   \<and> snd (lirrGetEvents (t + k) (shift_time k s)) = shift_time k (snd (lirrGetEvents t s))
   \<and> pulseFractionDecode cfg (distanceMode cfg) (referenceTime s + ucast (bitMin cfg)) s
       = Some (pf_case_true cfg (ucast (bitMin cfg))
                (s\<lparr>referenceTime := referenceTime s + ucast (bitMin cfg), pf_bitsRemaining := 0\<rparr>))
   \<and> pulseFractionDecode cfg (distanceMode cfg) (referenceTime s + ucast (bitMax cfg)) s
       = Some (pf_case_true cfg (ucast (bitMax cfg))
                (s\<lparr>referenceTime := referenceTime s + ucast (bitMax cfg), pf_bitsRemaining := 0\<rparr>))
   \<and> (\<exists>s'. pulseFractionDecode cfg (distanceMode cfg) (referenceTime s + ucast (bitSep cfg)) s
              = Some s'
          \<and> (incomingCode s' = incomingCode s \<or> incomingCode s' = 0))
   \<and> (pf_bitsRemaining s = 0 \<and> startMax cfg \<noteq> 0 \<longrightarrow>
        pulseFractionDecode cfg (distanceMode cfg) (referenceTime s + ucast (startMin cfg)) s
          = Some (s\<lparr>referenceTime := referenceTime s + ucast (startMin cfg)\<rparr>)
        \<and> pulseFractionDecode cfg (distanceMode cfg) (referenceTime s + ucast (startMax cfg)) s
          = Some (s\<lparr>referenceTime := referenceTime s + ucast (startMax cfg)\<rparr>))
   \<and> (bp_bitsRemaining s \<noteq> 0 \<and> deref_bitTime bcfg (bp_bitTime s) = Some bt
        \<and> fst bt < snd bt \<longrightarrow>
        biPhaseDecode bcfg p (referenceTime s + ucast (snd bt)) s
          = Some (bp_case_true bcfg p (referenceTime s + ucast (snd bt))
                   (s\<lparr>bp_bitsRemaining := 0\<rparr>))
        \<and> biPhaseDecode bcfg p (referenceTime s + ucast (fst bt)) s = Some s)
   \<and> (buttonState (remoteEvents s) = BUTTON_HELD \<longrightarrow>
        buttonState (fst (lirrGetEvents (referenceTime s + repeatInt) s)) = BUTTON_HELD)"
  by (intro conjI impI)
     (simp_all add: pf_shift bp_shift poll_shift lirrGetEvents_def Let_def pf_at_bit_bound pf_at_separator
        pf_at_start_bound bp_at_upper_bound bp_at_lower_bound poll_held)

section \<open>Bi-phase frames\<close>

lemma bp_idle_step:
  "bp_bitsRemaining s = 0 \<Longrightarrow> biPhaseDecode cfg p t s = Some (bp_case_true cfg p t s)"
  by (simp add: biPhaseDecode_def Let_def)

lemma bp_abort_step:
  "bp_bitsRemaining s \<noteq> 0 \<Longrightarrow> deref_bitTime cfg (bp_bitTime s) = Some bt \<Longrightarrow>
   \<not> t - referenceTime s < ucast (snd bt) \<Longrightarrow>
   biPhaseDecode cfg p t s = Some (bp_case_true cfg p t (s\<lparr>bp_bitsRemaining := 0\<rparr>))"
  by (simp add: biPhaseDecode_def Let_def)

lemma bp_early_step:
  "bp_bitsRemaining s \<noteq> 0 \<Longrightarrow> deref_bitTime cfg (bp_bitTime s) = Some bt \<Longrightarrow>
   t - referenceTime s < ucast (snd bt) \<Longrightarrow> \<not> ucast (fst bt) < t - referenceTime s \<Longrightarrow>
   biPhaseDecode cfg p t s = Some s"
  by (simp add: biPhaseDecode_def Let_def)

lemma bp_mid_step:
  assumes "bp_bitsRemaining s \<noteq> 0" and "deref_bitTime cfg (bp_bitTime s) = Some bt"
    and "t - referenceTime s < ucast (snd bt)" and "ucast (fst bt) < t - referenceTime s"
    and "unat (bp_bitsRemaining s) \<le> 32"
  shows "\<exists>s'. biPhaseDecode cfg p t s = Some s'
     \<and> referenceTime s' = t
     \<and> bp_bitsRemaining s' = bp_bitsRemaining s - 1
     \<and> incomingCode s' =
         (if p = aceRising cfg \<and> unat (bp_bitsRemaining s) - 1 \<noteq> unat (togglePos cfg)
          then incomingCode s + push_bit (unat (bp_bitsRemaining s) - 1) 1
          else incomingCode s)
     \<and> remoteEvents s' =
         (if bp_bitsRemaining s = 1 \<and> buttonState (remoteEvents s) = BUTTON_NONE
          then (remoteEvents s)\<lparr>buttonCode := incomingCode s', pressTime := t,
                 toggleState := \<not> toggleState (remoteEvents s)\<rparr>
          else remoteEvents s)
     \<and> bp_bitTime s' =
         (if bp_bitsRemaining s = 1 then bp_bitTime s
          else if unat (bp_bitsRemaining s) - 1 \<noteq> unat (togglePos cfg) + 1
                  \<and> unat (bp_bitsRemaining s) - 1 \<noteq> unat (togglePos cfg)
          then To_bitTime else To_toggleTime)
     \<and> pf_bitsRemaining s' = pf_bitsRemaining s
     \<and> isr_pinState s' = isr_pinState s"
proof -
  have u: "unat (bp_bitsRemaining s - 1) = unat (bp_bitsRemaining s) - 1"
    using assms(1) by (simp add: unat_minus_one)
  have z: "(bp_bitsRemaining s - 1 = 0) = (bp_bitsRemaining s = 1)"
    by auto
  have tp: "(bp_bitsRemaining s - 1 = togglePos cfg)
              = (unat (bp_bitsRemaining s) - 1 = unat (togglePos cfg))"
    by (simp add: word_unat_eq_iff u)
  have lt: "\<not> 32 \<le> unat (bp_bitsRemaining s) - 1"
    using assms(1,5) unat_gt_0 [of "bp_bitsRemaining s"] by simp
  show ?thesis
    using assms(1-4) lt
    by (simp add: biPhaseDecode_def bp_mid_bit_def Let_def u z tp)
qed

lemma bp_frame_bits_length:
  "bp_frame_bits cfg n ref es = Some bs \<Longrightarrow> length bs = n"
proof (induction es arbitrary: n ref bs)
  case Nil
  then show ?case by (simp split: if_splits)
next
  case (Cons e es)
  then show ?case
    by (fastforce split: if_splits)
qed

lemma low_bits_clear:
  "take_bit n (c :: u32) = 0 \<Longrightarrow> i < n \<Longrightarrow> \<not> bit c i"
proof -
  assume a: "take_bit n c = 0" and b: "i < n"
  have "bit (take_bit n c) i = (i < n \<and> bit c i)"
    by (simp add: bit_take_bit_iff)
  then show "\<not> bit c i" using a b by simp
qed

lemma add_top_bit:
  assumes "take_bit n (c :: u32) = 0" and "0 < n"
  shows "c + push_bit (n - 1) 1 = c OR push_bit (n - 1) 1"
    and "take_bit (n - 1) (c + push_bit (n - 1) 1) = 0"
    and "take_bit (n - 1) c = 0"
proof -
  have clr: "\<not> bit c i" if "i < n" for i
    using low_bits_clear [OF assms(1) that] .
  show eq: "c + push_bit (n - 1) 1 = c OR push_bit (n - 1) 1"
  proof (rule disjunctive_add)
    fix i
    show "\<not> bit c i \<or> \<not> bit (push_bit (n - 1) (1 :: u32)) i"
      using clr [of i] assms(2) by (auto simp add: bit_exp_iff)
  qed
  show "take_bit (n - 1) (c + push_bit (n - 1) 1) = 0"
    unfolding eq
    by (rule bit_eqI) (use clr in \<open>auto simp add: bit_take_bit_iff bit_or_iff bit_exp_iff\<close>)
  show "take_bit (n - 1) c = 0"
    by (rule bit_eqI) (use clr in \<open>auto simp add: bit_take_bit_iff\<close>)
qed

lemma bp_run_bits:
  assumes "unat (bp_bitsRemaining s) = n"
    and "n \<le> unat (bits cfg)" and "n \<le> 32"
    and "n \<noteq> 0 \<longrightarrow> deref_bitTime cfg (bp_bitTime s) = Some (bp_pair cfg n)"
    and "bp_frame_bits cfg n (referenceTime s) es = Some bs"
    and "take_bit n (incomingCode s) = 0"
  shows "\<exists>s'. bp_run cfg es s = Some s'
           \<and> bp_bitsRemaining s' = 0
           \<and> incomingCode s' = incomingCode s OR msb_first bs
           \<and> buttonState (remoteEvents s') = buttonState (remoteEvents s)
           \<and> buttonCode (remoteEvents s') =
               (if bs \<noteq> [] \<and> buttonState (remoteEvents s) = BUTTON_NONE
                then incomingCode s' else buttonCode (remoteEvents s))"
  using assms
proof (induction es arbitrary: s n bs)
  case Nil
  then show ?case
    by (simp add: msb_first_Nil unat_eq_zero split: if_splits)
next
  case (Cons e es)
  let ?d = "snd e - referenceTime s"
  let ?pr = "bp_pair cfg n"
  from Cons.prems(5) have n0: "n \<noteq> 0" and hi: "?d < ucast (snd ?pr)"
    by (auto split: if_splits)
  have nz: "bp_bitsRemaining s \<noteq> 0"
    using Cons.prems(1) n0 by auto
  have dr: "deref_bitTime cfg (bp_bitTime s) = Some ?pr"
    using Cons.prems(4) n0 by simp
  show ?case
  proof (cases "ucast (fst ?pr) < ?d")
    case False
    have step: "biPhaseDecode cfg (fst e) (snd e) s = Some s"
      using bp_early_step [OF nz dr hi False] .
    have fb: "bp_frame_bits cfg n (referenceTime s) es = Some bs"
      using Cons.prems(5) n0 hi False by simp
    from Cons.IH [OF Cons.prems(1,2,3,4) fb Cons.prems(6)] show ?thesis
      by (simp add: step)
  next
    case True
    define b where "b = (fst e = aceRising cfg \<and> n - 1 \<noteq> unat (togglePos cfg))"
    from Cons.prems(5) n0 hi True obtain bs' where
      bs: "bs = b # bs'" and fb: "bp_frame_bits cfg (n - 1) (snd e) es = Some bs'"
      by (auto simp add: b_def)
    have len: "length bs' = n - 1"
      using bp_frame_bits_length [OF fb] .
    have le: "unat (bp_bitsRemaining s) \<le> 32"
      using Cons.prems(1,3) by simp
    from bp_mid_step [OF nz dr hi True le, of "fst e"] obtain s1 where
      st: "biPhaseDecode cfg (fst e) (snd e) s = Some s1"
      and r1: "referenceTime s1 = snd e"
      and r2: "bp_bitsRemaining s1 = bp_bitsRemaining s - 1"
      and r3: "incomingCode s1 =
         (if fst e = aceRising cfg \<and> unat (bp_bitsRemaining s) - 1 \<noteq> unat (togglePos cfg)
          then incomingCode s + push_bit (unat (bp_bitsRemaining s) - 1) 1
          else incomingCode s)"
      and r4: "remoteEvents s1 =
         (if bp_bitsRemaining s = 1 \<and> buttonState (remoteEvents s) = BUTTON_NONE
          then (remoteEvents s)\<lparr>buttonCode := incomingCode s1, pressTime := snd e,
                 toggleState := \<not> toggleState (remoteEvents s)\<rparr>
          else remoteEvents s)"
      and r5: "bp_bitTime s1 =
         (if bp_bitsRemaining s = 1 then bp_bitTime s
          else if unat (bp_bitsRemaining s) - 1 \<noteq> unat (togglePos cfg) + 1
                  \<and> unat (bp_bitsRemaining s) - 1 \<noteq> unat (togglePos cfg)
          then To_bitTime else To_toggleTime)"
      by blast
    have npos: "0 < n" using n0 by simp
    note tb = add_top_bit [OF Cons.prems(6) npos]
    have c1: "incomingCode s1 = incomingCode s OR (if b then push_bit (n - 1) 1 else 0)"
      using r3 tb(1) Cons.prems(1) by (simp add: b_def)
    have a1: "unat (bp_bitsRemaining s1) = n - 1"
      using r2 nz Cons.prems(1) by (simp add: unat_minus_one)
    have a2: "n - 1 \<le> unat (bits cfg)" using Cons.prems(2) by simp
    have a3: "n - 1 \<le> 32" using Cons.prems(3) by simp
    have one: "(bp_bitsRemaining s = 1) = (n = 1)"
      using Cons.prems(1) by (auto simp add: word_unat_eq_iff)
    have a4: "n - 1 \<noteq> 0 \<longrightarrow> deref_bitTime cfg (bp_bitTime s1) = Some (bp_pair cfg (n - 1))"
    proof
      assume m: "n - 1 \<noteq> 0"
      then have "n \<noteq> 1" by simp
      moreover have "n - 1 \<noteq> unat (bits cfg)" using Cons.prems(2) npos by simp
      ultimately show "deref_bitTime cfg (bp_bitTime s1) = Some (bp_pair cfg (n - 1))"
        using r5 Cons.prems(1) one by (auto simp add: bp_pair_def deref_bitTime_def)
    qed
    have a5: "bp_frame_bits cfg (n - 1) (referenceTime s1) es = Some bs'"
      using fb r1 by simp
    have a6: "take_bit (n - 1) (incomingCode s1) = 0"
      using r3 tb(2,3) Cons.prems(1) by (simp split: if_splits)
    from Cons.IH [OF a1 a2 a3 a4 a5 a6] obtain s' where
      r: "bp_run cfg es s1 = Some s'" "bp_bitsRemaining s' = 0"
         "incomingCode s' = incomingCode s1 OR msb_first bs'"
         "buttonState (remoteEvents s') = buttonState (remoteEvents s1)"
         "buttonCode (remoteEvents s') =
               (if bs' \<noteq> [] \<and> buttonState (remoteEvents s1) = BUTTON_NONE
                then incomingCode s' else buttonCode (remoteEvents s1))"
      by blast
    have code: "incomingCode s' = incomingCode s OR msb_first bs"
      using r(3) c1 len by (simp add: bs msb_first_Cons or.assoc)
    have st1: "buttonState (remoteEvents s1) = buttonState (remoteEvents s)"
      using r4 by simp
    have e1: "(bs' = []) = (n = 1)"
      using len npos by auto
    have bc: "buttonCode (remoteEvents s') =
               (if buttonState (remoteEvents s) = BUTTON_NONE
                then incomingCode s' else buttonCode (remoteEvents s))"
    proof (cases "bs' = []")
      case True
      then have "incomingCode s' = incomingCode s1" using r(3) by (simp add: msb_first_Nil)
      then show ?thesis using r(5) r4 True e1 one by simp
    next
      case False
      then show ?thesis using r(5) r4 e1 one st1 by simp
    qed
    show ?thesis
      using r(1,2,4) code bc st1 by (simp add: st bs)
  qed
qed

lemma bp_idle_upd: "bp_bitsRemaining s = 0 \<Longrightarrow> s\<lparr>bp_bitsRemaining := 0\<rparr> = s"
  by (cases s) simp

lemma bp_run_frame:
  assumes "bp_bitsRemaining s = 0
           \<or> (\<exists>bt e es'. es = e # es' \<and> deref_bitTime cfg (bp_bitTime s) = Some bt
                 \<and> \<not> snd e - referenceTime s < ucast (snd bt))"
    and "dropWhile (\<lambda>e. \<not> fst e) es = e0 # body"
    and "bp_frame_bits cfg (unat (bits cfg)) (snd e0) body = Some bs"
    and "unat (bits cfg) \<le> 32"
  shows "\<exists>s'. bp_run cfg es s = Some s'
           \<and> bp_bitsRemaining s' = 0
           \<and> incomingCode s' = msb_first bs
           \<and> buttonState (remoteEvents s') = buttonState (remoteEvents s)
           \<and> buttonCode (remoteEvents s') =
               (if bs \<noteq> [] \<and> buttonState (remoteEvents s) = BUTTON_NONE
                then incomingCode s' else buttonCode (remoteEvents s))"
  using assms(1,2)
proof (induction es arbitrary: s)
  case Nil
  then show ?case by simp
next
  case (Cons e es)
  have step: "biPhaseDecode cfg (fst e) (snd e) s
                = Some (bp_case_true cfg (fst e) (snd e) (s\<lparr>bp_bitsRemaining := 0\<rparr>))"
  proof (cases "bp_bitsRemaining s = 0")
    case True
    then show ?thesis by (simp add: bp_idle_step bp_idle_upd)
  next
    case False
    with Cons.prems(1) obtain bt where
      "deref_bitTime cfg (bp_bitTime s) = Some bt" "\<not> snd e - referenceTime s < ucast (snd bt)"
      by auto
    then show ?thesis using False by (simp add: bp_abort_step)
  qed
  show ?case
  proof (cases "fst e")
    case True
    define s1 where "s1 = bp_case_true cfg (fst e) (snd e) (s\<lparr>bp_bitsRemaining := 0\<rparr>)"
    have e0: "e0 = e" "body = es"
      using Cons.prems(2) True by simp_all
    have f: "bp_bitsRemaining s1 = bits cfg" "incomingCode s1 = 0" "referenceTime s1 = snd e"
        "bp_bitTime s1 = To_startTime" "remoteEvents s1 = remoteEvents s"
      using True by (simp_all add: s1_def bp_case_true_def)
    have a1: "unat (bp_bitsRemaining s1) = unat (bits cfg)" by (simp add: f)
    have a4: "unat (bits cfg) \<noteq> 0 \<longrightarrow>
               deref_bitTime cfg (bp_bitTime s1) = Some (bp_pair cfg (unat (bits cfg)))"
      by (simp add: f deref_bitTime_def bp_pair_def)
    have a5: "bp_frame_bits cfg (unat (bits cfg)) (referenceTime s1) es = Some bs"
      using assms(3) e0 by (simp add: f)
    have a6: "take_bit (unat (bits cfg)) (incomingCode s1) = 0" by (simp add: f)
    from bp_run_bits [OF a1 order_refl assms(4) a4 a5 a6] show ?thesis
      by (simp add: step s1_def [symmetric] f cong: if_cong)
  next
    case False
    define s1 where "s1 = s\<lparr>bp_bitsRemaining := 0\<rparr>"
    have st: "biPhaseDecode cfg (fst e) (snd e) s = Some s1"
      using step False by (simp add: bp_case_true_def s1_def)
    have a1: "bp_bitsRemaining s1 = 0
           \<or> (\<exists>bt e es'. es = e # es' \<and> deref_bitTime cfg (bp_bitTime s1) = Some bt
                 \<and> \<not> snd e - referenceTime s1 < ucast (snd bt))"
      by (simp add: s1_def)
    have a2: "dropWhile (\<lambda>e. \<not> fst e) es = e0 # body"
      using Cons.prems(2) False by simp
    have "remoteEvents s1 = remoteEvents s" by (simp add: s1_def)
    then show ?thesis
      using Cons.IH [OF a1 a2] by (simp add: st cong: if_cong)
  qed
qed

section \<open>Recovery after a timing violation\<close>

lemma pf_abort_recovers:
  assumes "pf_bitsRemaining s \<noteq> 0" and "\<not> pf_bit_ok cfg (t - referenceTime s)"
    and "dropWhile (\<lambda>d. \<not> pf_start_ok cfg d) ((t - referenceTime s) # pf_intervals cfg t es)
           = d0 # ds"
    and "length ds = unat (lirrPulseFractionSettings_t.bits cfg)"
    and "list_all (pf_bit_ok cfg) ds"
    and "unat (lirrPulseFractionSettings_t.bits cfg) \<le> 32"
  shows "\<exists>s1 s'. pulseFractionDecode cfg (distanceMode cfg) t s = Some s1
       \<and> s1 = pf_case_true cfg (t - referenceTime s) (s\<lparr>referenceTime := t, pf_bitsRemaining := 0\<rparr>)
       \<and> remoteEvents s1 = remoteEvents s
       \<and> pf_bitsRemaining s1 =
           (if pf_start_ok cfg (t - referenceTime s) then lirrPulseFractionSettings_t.bits cfg else 0)
       \<and> incomingCode s1 = (if pf_start_ok cfg (t - referenceTime s) then 0 else incomingCode s)
       \<and> pf_run cfg es s1 = Some s'
       \<and> pf_bitsRemaining s' = 0
       \<and> incomingCode s' = msb_first (map (pf_bit cfg) ds)
       \<and> buttonCode (remoteEvents s') =
           (if ds \<noteq> [] \<and> buttonState (remoteEvents s) = BUTTON_NONE
            then msb_first (map (pf_bit cfg) ds) else buttonCode (remoteEvents s))"
proof -
  define s1 where
    "s1 = pf_case_true cfg (t - referenceTime s) (s\<lparr>referenceTime := t, pf_bitsRemaining := 0\<rparr>)"
  have step: "pulseFractionDecode cfg (distanceMode cfg) t s = Some s1"
    using pf_reject [OF disjI2 [OF assms(2)]]
    by (auto simp add: s1_def pf_case_true_def pf_start_ok_def)
  have f: "remoteEvents s1 = remoteEvents s"
      "pf_bitsRemaining s1 =
           (if pf_start_ok cfg (t - referenceTime s) then lirrPulseFractionSettings_t.bits cfg else 0)"
      "incomingCode s1 = (if pf_start_ok cfg (t - referenceTime s) then 0 else incomingCode s)"
    by (auto simp add: s1_def pf_case_true_def pf_start_ok_def)
  have iv: "pf_intervals cfg (referenceTime s) ((distanceMode cfg, t) # es)
              = (t - referenceTime s) # pf_intervals cfg t es"
    by simp
  have a1: "pf_bitsRemaining s = 0
      \<or> (\<exists>d ds0. (t - referenceTime s) # pf_intervals cfg t es = d # ds0 \<and> \<not> pf_bit_ok cfg d)"
    using assms(2) by simp
  have le: "length ds \<le> 32" using assms(4,6) by simp
  from pf_run_frame [OF a1 iv assms(3,4,5) le] obtain s' where
    r: "pf_run cfg ((distanceMode cfg, t) # es) s = Some s'" "pf_bitsRemaining s' = 0"
       "incomingCode s' = msb_first (map (pf_bit cfg) ds)"
       "buttonCode (remoteEvents s') =
           (if ds \<noteq> [] \<and> buttonState (remoteEvents s) = BUTTON_NONE
            then incomingCode s' else buttonCode (remoteEvents s))"
    by blast
  have "pf_run cfg es s1 = Some s'"
    using r(1) by (simp add: step)
  then show ?thesis
    using step f r(2,3,4) unfolding s1_def [symmetric] by simp
qed

lemma bp_abort_recovers:
  assumes "bp_bitsRemaining s \<noteq> 0" and "deref_bitTime cfg (bp_bitTime s) = Some bt"
    and "\<not> t - referenceTime s < ucast (snd bt)"
    and "dropWhile (\<lambda>e. \<not> fst e) ((p, t) # es) = e0 # body"
    and "bp_frame_bits cfg (unat (bits cfg)) (snd e0) body = Some bs"
    and "unat (bits cfg) \<le> 32"
  shows "\<exists>s1 s'. biPhaseDecode cfg p t s = Some s1
       \<and> s1 = bp_case_true cfg p t (s\<lparr>bp_bitsRemaining := 0\<rparr>)
       \<and> remoteEvents s1 = remoteEvents s
       \<and> bp_bitsRemaining s1 = (if p then bits cfg else 0)
       \<and> incomingCode s1 = (if p then 0 else incomingCode s)
       \<and> bp_run cfg es s1 = Some s'
       \<and> bp_bitsRemaining s' = 0
       \<and> incomingCode s' = msb_first bs
       \<and> buttonCode (remoteEvents s') =
           (if bs \<noteq> [] \<and> buttonState (remoteEvents s) = BUTTON_NONE
            then msb_first bs else buttonCode (remoteEvents s))"
proof -
  define s1 where "s1 = bp_case_true cfg p t (s\<lparr>bp_bitsRemaining := 0\<rparr>)"
  have step: "biPhaseDecode cfg p t s = Some s1"
    using bp_abort_step [OF assms(1,2,3)] by (simp add: s1_def)
  have f: "remoteEvents s1 = remoteEvents s"
      "bp_bitsRemaining s1 = (if p then bits cfg else 0)"
      "incomingCode s1 = (if p then 0 else incomingCode s)"
    by (simp_all add: s1_def bp_case_true_def)
  have a1: "bp_bitsRemaining s = 0
           \<or> (\<exists>bt e es'. (p, t) # es = e # es' \<and> deref_bitTime cfg (bp_bitTime s) = Some bt
                 \<and> \<not> snd e - referenceTime s < ucast (snd bt))"
    using assms(2,3) by simp
  from bp_run_frame [OF a1 assms(4,5,6)] obtain s' where
    r: "bp_run cfg ((p, t) # es) s = Some s'" "bp_bitsRemaining s' = 0"
       "incomingCode s' = msb_first bs"
       "buttonCode (remoteEvents s') =
           (if bs \<noteq> [] \<and> buttonState (remoteEvents s) = BUTTON_NONE
            then incomingCode s' else buttonCode (remoteEvents s))"
    by blast
  have "bp_run cfg es s1 = Some s'"
    using r(1) by (simp add: step)
  then show ?thesis
    using step f r(2,3,4) unfolding s1_def [symmetric] by simp
qed

section \<open>Sessions\<close>

lemma pf_step_ok:
  assumes "unat (lirrPulseFractionSettings_t.bits cfg) \<le> 32"
    and "unat (pf_bitsRemaining s) \<le> 32"
  shows "\<exists>s'. pulseFractionDecode cfg p t s = Some s'
     \<and> unat (pf_bitsRemaining s') \<le> 32
     \<and> (remoteEvents s' = remoteEvents s
        \<or> (buttonState (remoteEvents s) = BUTTON_NONE
           \<and> remoteEvents s' = (remoteEvents s)
                \<lparr>buttonCode := incomingCode s', pressTime := t,
                 toggleState := \<not> toggleState (remoteEvents s)\<rparr>))"
proof (cases "p = distanceMode cfg")
  case False
  then show ?thesis
    using assms(2) by (simp add: pf_nonmeasuring)
next
  case True
  show ?thesis
  proof (cases "pf_bitsRemaining s = 0 \<or> \<not> pf_bit_ok cfg (t - referenceTime s)")
    case rej: True
    show ?thesis
      using pf_reject [OF rej] assms(1) True by simp
  next
    case False
    then have nz: "pf_bitsRemaining s \<noteq> 0" and ok: "pf_bit_ok cfg (t - referenceTime s)"
      by simp_all
    have "unat (pf_bitsRemaining s - 1) \<le> 32"
      using assms(2) nz by (simp add: unat_minus_one)
    then show ?thesis
      using pf_accept_bit [OF nz ok assms(2)] True by (simp add: Let_def)
  qed
qed

lemma bp_step_ok:
  assumes "unat (bits cfg) \<le> 32"
    and "decoder_ok (BiPhase cfg) s"
  shows "\<exists>s'. biPhaseDecode cfg p t s = Some s'
     \<and> decoder_ok (BiPhase cfg) s'
     \<and> (bit (incomingCode s') (unat (togglePos cfg))
          \<longrightarrow> bit (incomingCode s) (unat (togglePos cfg)))
     \<and> (remoteEvents s' = remoteEvents s
        \<or> (buttonState (remoteEvents s) = BUTTON_NONE
           \<and> remoteEvents s' = (remoteEvents s)
                \<lparr>buttonCode := incomingCode s', pressTime := t,
                 toggleState := \<not> toggleState (remoteEvents s)\<rparr>))"
proof -
  from assms(2) have le: "unat (bp_bitsRemaining s) \<le> 32"
    and ptr: "bp_bitsRemaining s = 0 \<or> bp_bitTime s \<noteq> NullPtr"
    and low: "take_bit (unat (bp_bitsRemaining s)) (incomingCode s) = 0"
    by (simp_all add: decoder_ok_def)
  have start_ok: "decoder_ok (BiPhase cfg) (bp_case_true cfg p t (s\<lparr>bp_bitsRemaining := 0\<rparr>))
      \<and> (bit (incomingCode (bp_case_true cfg p t (s\<lparr>bp_bitsRemaining := 0\<rparr>))) (unat (togglePos cfg))
            \<longrightarrow> bit (incomingCode s) (unat (togglePos cfg)))
      \<and> remoteEvents (bp_case_true cfg p t (s\<lparr>bp_bitsRemaining := 0\<rparr>)) = remoteEvents s"
    using assms(1) by (simp add: bp_case_true_def decoder_ok_def)
  show ?thesis
  proof (cases "bp_bitsRemaining s = 0")
    case True
    then show ?thesis
      using start_ok by (simp add: bp_idle_step bp_idle_upd)
  next
    case nz: False
    then obtain bt where dr: "deref_bitTime cfg (bp_bitTime s) = Some bt"
      using ptr by (cases "bp_bitTime s") (simp_all add: deref_bitTime_def)
    show ?thesis
    proof (cases "t - referenceTime s < ucast (snd bt)")
      case False
      then show ?thesis
        using start_ok bp_abort_step [OF nz dr False] by simp
    next
      case hi: True
      show ?thesis
      proof (cases "ucast (fst bt) < t - referenceTime s")
        case False
        then show ?thesis
          using bp_early_step [OF nz dr hi False] assms(2) by simp
      next
        case lo: True
        let ?n = "unat (bp_bitsRemaining s)"
        from bp_mid_step [OF nz dr hi lo le, of p] obtain s' where
          st: "biPhaseDecode cfg p t s = Some s'"
          and r2: "bp_bitsRemaining s' = bp_bitsRemaining s - 1"
          and r3: "incomingCode s' =
             (if p = aceRising cfg \<and> ?n - 1 \<noteq> unat (togglePos cfg)
              then incomingCode s + push_bit (?n - 1) 1
              else incomingCode s)"
          and r4: "remoteEvents s' =
             (if bp_bitsRemaining s = 1 \<and> buttonState (remoteEvents s) = BUTTON_NONE
              then (remoteEvents s)\<lparr>buttonCode := incomingCode s', pressTime := t,
                     toggleState := \<not> toggleState (remoteEvents s)\<rparr>
              else remoteEvents s)"
          and r5: "bp_bitTime s' =
             (if bp_bitsRemaining s = 1 then bp_bitTime s
              else if ?n - 1 \<noteq> unat (togglePos cfg) + 1 \<and> ?n - 1 \<noteq> unat (togglePos cfg)
              then To_bitTime else To_toggleTime)"
          by blast
        have npos: "0 < ?n" using nz by (simp add: unat_gt_0)
        note tb = add_top_bit [OF low npos]
        have u: "unat (bp_bitsRemaining s') = ?n - 1"
          using r2 nz by (simp add: unat_minus_one)
        have d1: "unat (bp_bitsRemaining s') \<le> 32"
          using le u by simp
        have d2: "bp_bitsRemaining s' = 0 \<or> bp_bitTime s' \<noteq> NullPtr"
        proof (cases "bp_bitsRemaining s = 1")
          case True
          then show ?thesis using r2 by simp
        next
          case False
          then show ?thesis using r5 by simp
        qed
        have d3: "take_bit (unat (bp_bitsRemaining s')) (incomingCode s') = 0"
          unfolding u r3 using tb(2,3) by simp
        have k1: "decoder_ok (BiPhase cfg) s'"
          using d1 d2 d3 by (simp add: decoder_ok_def)
        have k2: "bit (incomingCode s') (unat (togglePos cfg))
                    \<longrightarrow> bit (incomingCode s) (unat (togglePos cfg))"
          using r3 tb(1) by (auto simp add: bit_or_iff bit_exp_iff)
        have k4: "remoteEvents s' = remoteEvents s
            \<or> (buttonState (remoteEvents s) = BUTTON_NONE
               \<and> remoteEvents s' = (remoteEvents s)
                    \<lparr>buttonCode := incomingCode s', pressTime := t,
                     toggleState := \<not> toggleState (remoteEvents s)\<rparr>)"
          using r4 by (simp split: if_splits)
        show ?thesis
          using st k1 k2 k4 by blast
      qed
    qed
  qed
qed

text \<open>An interrupt: the call is total, keeps the decoder in order, and either leaves the
  Event Record alone or publishes into state NONE.\<close>

lemma irq_step_ok:
  assumes "proto_ok proto" and "decoder_ok proto s"
  shows "\<exists>s'. step proto (Irq t) s = Some s'
     \<and> decoder_ok proto s'
     \<and> (remoteEvents s' = remoteEvents s
        \<or> (buttonState (remoteEvents s) = BUTTON_NONE
           \<and> remoteEvents s' = (remoteEvents s)
                \<lparr>buttonCode := incomingCode s', pressTime := t,
                 toggleState := \<not> toggleState (remoteEvents s)\<rparr>))"
proof (cases proto)
  case (PulseFraction cfg)
  let ?s1 = "s\<lparr>isr_pinState := \<not> isr_pinState s\<rparr>"
  have a: "unat (lirrPulseFractionSettings_t.bits cfg) \<le> 32"
    using assms(1) PulseFraction by (simp add: proto_ok_def)
  have b: "unat (pf_bitsRemaining ?s1) \<le> 32"
    using assms(2) PulseFraction by (simp add: decoder_ok_def)
  from pf_step_ok [OF a b, of "isr_pinState ?s1" t] show ?thesis
    using PulseFraction
    by (simp add: step_def ISR_PCINT2_def pDecodeFunction_def decoder_ok_def Let_def)
next
  case (BiPhase cfg)
  let ?s1 = "s\<lparr>isr_pinState := \<not> isr_pinState s\<rparr>"
  have a: "unat (bits cfg) \<le> 32"
    using assms(1) BiPhase by (simp add: proto_ok_def)
  have b: "decoder_ok (BiPhase cfg) ?s1"
    using assms(2) BiPhase by (simp add: decoder_ok_def)
  from bp_step_ok [OF a b, of "isr_pinState ?s1" t] show ?thesis
    using BiPhase
    by (auto simp add: step_def ISR_PCINT2_def pDecodeFunction_def Let_def)
qed

lemma poll_counts:
  "toggleState (remoteEvents (snd (lirrGetEvents t s))) = toggleState (remoteEvents s)"
  "(if buttonState (remoteEvents (snd (lirrGetEvents t s))) = BUTTON_PRESSED then 1 else 0)
     + pending (snd (lirrGetEvents t s)) = pending s"
  by (simp_all add: lirrGetEvents_def lirrGetEvents_upd_def poll_case_none_def pending_def
        button_defs Let_def)

lemma poll_keeps_decoder:
  "decoder_ok proto (snd (lirrGetEvents t s)) = decoder_ok proto s"
  "incomingCode (snd (lirrGetEvents t s)) = incomingCode s"
  "buttonCode (remoteEvents (snd (lirrGetEvents t s))) = buttonCode (remoteEvents s)
     \<or> buttonCode (remoteEvents (snd (lirrGetEvents t s))) = 0"
  by (simp_all add: lirrGetEvents_def lirrGetEvents_upd_def poll_case_none_def decoder_ok_def
        Let_def split: protocol.split)

lemma run_ok:
  assumes "proto_ok proto" and "decoder_ok proto s"
  shows "\<exists>s'. run proto evs s = Some s' \<and> decoder_ok proto s'"
  using assms(2)
proof (induction evs arbitrary: s)
  case Nil
  then show ?case by simp
next
  case (Cons ev evs)
  show ?case
  proof (cases ev)
    case (Irq t)
    from irq_step_ok [OF assms(1) Cons.prems, of t] obtain s1 where
      "step proto (Irq t) s = Some s1" "decoder_ok proto s1"
      by blast
    then show ?thesis
      using Cons.IH [of s1] Irq by simp
  next
    case (Poll t)
    have "decoder_ok proto (snd (lirrGetEvents t s))"
      using Cons.prems by (simp add: poll_keeps_decoder)
    then show ?thesis
      using Cons.IH [of "snd (lirrGetEvents t s)"] Poll by (simp add: step_def)
  qed
qed

lemma toggle_press_balance:
  assumes "proto_ok proto" and "decoder_ok proto s" and "polled_in_time proto evs s"
  shows "\<exists>s'. run proto evs s = Some s'
     \<and> toggle_count proto evs s + pending s = press_count proto evs s + pending s'"
  using assms(2,3)
proof (induction evs arbitrary: s)
  case Nil
  then show ?case by simp
next
  case (Cons ev evs)
  show ?case
  proof (cases ev)
    case (Irq t)
    from irq_step_ok [OF assms(1) Cons.prems(1), of t] obtain s1 where
      st: "step proto (Irq t) s = Some s1" and ok: "decoder_ok proto s1"
      and re: "remoteEvents s1 = remoteEvents s
        \<or> (buttonState (remoteEvents s) = BUTTON_NONE
           \<and> remoteEvents s1 = (remoteEvents s)
                \<lparr>buttonCode := incomingCode s1, pressTime := t,
                 toggleState := \<not> toggleState (remoteEvents s)\<rparr>)"
      by blast
    from Cons.prems(2) st Irq have
      pt: "toggleState (remoteEvents s1) = toggleState (remoteEvents s)
             \<or> (buttonCode (remoteEvents s) = 0 \<and> buttonCode (remoteEvents s1) \<noteq> 0)"
      and rest: "polled_in_time proto evs s1"
      by simp_all
    from Cons.IH [OF ok rest] obtain s' where
      r: "run proto evs s1 = Some s'"
         "toggle_count proto evs s1 + pending s1 = press_count proto evs s1 + pending s'"
      by blast
    have bal: "(if toggleState (remoteEvents s1) = toggleState (remoteEvents s) then 0 else 1)
                 + pending s = pending s1"
      using re pt by (auto simp add: pending_def)
    show ?thesis
      using r bal st Irq by simp
  next
    case (Poll t)
    let ?s1 = "snd (lirrGetEvents t s)"
    have st: "step proto (Poll t) s = Some ?s1"
      by (simp add: step_def)
    have ok: "decoder_ok proto ?s1"
      using Cons.prems(1) by (simp add: poll_keeps_decoder)
    have rest: "polled_in_time proto evs ?s1"
      using Cons.prems(2) Poll st by simp
    from Cons.IH [OF ok rest] obtain s' where
      r: "run proto evs ?s1 = Some s'"
         "toggle_count proto evs ?s1 + pending ?s1 = press_count proto evs ?s1 + pending s'"
      by blast
    show ?thesis
      using r st Poll poll_counts [of t s] by simp
  qed
qed

lemma toggle_only_in_none:
  assumes "step proto ev s = Some s1"
    and "buttonState (remoteEvents s) \<noteq> BUTTON_NONE \<or> (\<exists>t. ev = Poll t)"
  shows "toggleState (remoteEvents s1) = toggleState (remoteEvents s)"
proof (cases ev)
  case (Poll t)
  then show ?thesis
    using assms(1) poll_counts(1) [of t s] by (auto simp add: step_def)
next
  case (Irq t)
  then have ns: "buttonState (remoteEvents s) \<noteq> BUTTON_NONE"
    using assms(2) by simp
  show ?thesis
  proof (cases proto)
    case (PulseFraction cfg)
    then show ?thesis
      using assms(1) Irq ns
      by (auto simp add: step_def ISR_PCINT2_def pDecodeFunction_def pulseFractionDecode_def
            pf_case_false_def pf_case_true_def Let_def split: if_splits)
  next
    case (BiPhase cfg)
    then show ?thesis
      using assms(1) Irq ns
      by (auto simp add: step_def ISR_PCINT2_def pDecodeFunction_def biPhaseDecode_def
            bp_mid_bit_def bp_case_true_def Let_def split: if_splits option.splits)
  qed
qed

lemmas session_eval = step_def ISR_PCINT2_def pDecodeFunction_def pulseFractionDecode_def
  pf_case_false_def pf_case_true_def lirrGetEvents_def lirrGetEvents_upd_def poll_case_none_def
  scenario_descriptor_def lirr_init_def repeatInt_def button_defs Let_def

lemma run_toggle_clear:
  assumes "unat (bits cfg) \<le> 32"
    and "decoder_ok (BiPhase cfg) s"
    and "\<not> bit (incomingCode s) (unat (togglePos cfg))"
    and "\<not> bit (buttonCode (remoteEvents s)) (unat (togglePos cfg))"
  shows "\<exists>s'. run (BiPhase cfg) evs s = Some s'
     \<and> \<not> bit (incomingCode s') (unat (togglePos cfg))
     \<and> \<not> bit (buttonCode (remoteEvents s')) (unat (togglePos cfg))"
  using assms(2,3,4)
proof (induction evs arbitrary: s)
  case Nil
  then show ?case by simp
next
  case (Cons ev evs)
  show ?case
  proof (cases ev)
    case (Irq t)
    let ?s1 = "s\<lparr>isr_pinState := \<not> isr_pinState s\<rparr>"
    have b: "decoder_ok (BiPhase cfg) ?s1"
      using Cons.prems(1) by (simp add: decoder_ok_def)
    from bp_step_ok [OF assms(1) b, of "isr_pinState ?s1" t] obtain s2 where
      st: "biPhaseDecode cfg (isr_pinState ?s1) t ?s1 = Some s2"
      and ok: "decoder_ok (BiPhase cfg) s2"
      and k2: "bit (incomingCode s2) (unat (togglePos cfg))
                 \<longrightarrow> bit (incomingCode ?s1) (unat (togglePos cfg))"
      and k4: "remoteEvents s2 = remoteEvents ?s1
        \<or> (buttonState (remoteEvents ?s1) = BUTTON_NONE
           \<and> remoteEvents s2 = (remoteEvents ?s1)
                \<lparr>buttonCode := incomingCode s2, pressTime := t,
                 toggleState := \<not> toggleState (remoteEvents ?s1)\<rparr>)"
      by blast
    have c1: "\<not> bit (incomingCode s2) (unat (togglePos cfg))"
      using k2 Cons.prems(2) by simp
    have c2: "\<not> bit (buttonCode (remoteEvents s2)) (unat (togglePos cfg))"
      using k4 c1 Cons.prems(3) by auto
    have "step (BiPhase cfg) ev s = Some s2"
      using st Irq by (simp add: step_def ISR_PCINT2_def pDecodeFunction_def Let_def)
    then show ?thesis
      using Cons.IH [OF ok c1 c2] by simp
  next
    case (Poll t)
    let ?s1 = "snd (lirrGetEvents t s)"
    have ok: "decoder_ok (BiPhase cfg) ?s1"
      using Cons.prems(1) by (simp add: poll_keeps_decoder)
    have c1: "\<not> bit (incomingCode ?s1) (unat (togglePos cfg))"
      using Cons.prems(2) by (simp add: poll_keeps_decoder)
    have c2: "\<not> bit (buttonCode (remoteEvents ?s1)) (unat (togglePos cfg))"
      using Cons.prems(3) poll_keeps_decoder(3) [of t s] by auto
    have "step (BiPhase cfg) ev s = Some ?s1"
      using Poll by (simp add: step_def)
    then show ?thesis
      using Cons.IH [OF ok c1 c2] by simp
  qed
qed

lemma bp_toggle_position_step:
  assumes "bp_bitsRemaining s \<noteq> 0"
    and "unat (bp_bitsRemaining s) - 1 = unat (togglePos cfg)"
    and "deref_bitTime cfg (bp_bitTime s) = Some bt"
    and "ucast (fst bt) < t - referenceTime s" and "t - referenceTime s < ucast (snd bt)"
  shows "\<exists>s'. biPhaseDecode cfg p t s = Some s'
     \<and> incomingCode s' = incomingCode s
     \<and> bp_bitsRemaining s' = togglePos cfg
     \<and> bp_bitTime s' = (if togglePos cfg = 0 then bp_bitTime s else To_toggleTime)"
proof -
  have u: "unat (bp_bitsRemaining s - 1) = unat (bp_bitsRemaining s) - 1"
    using assms(1) by (simp add: unat_minus_one)
  have e: "bp_bitsRemaining s - 1 = togglePos cfg"
    using assms(2) u by (simp add: word_unat_eq_iff)
  show ?thesis
    using assms(1,3,4,5) e
    by (simp add: biPhaseDecode_def bp_mid_bit_def Let_def)
qed

section \<open>C6: the scenario of the specification\<close>

text \<open>
  C6. With the descriptor bits = 4, distanceMode = true, startMin = startMax = 0,
  bitMin = 400, bitMax = 1200, bitSep = 700, started at any reference time, the measuring
  edges with intervals 800, 800, 300, 800, 900, 500, 1600 leave, one after the other:
  4 bits remaining and accumulator 0 (frame begun); 3 and 8 (a 1 bit); 4 and 0 (300 is
  out of bounds, the frame is aborted and the same edge begins a new one); 3 and 8; 2 and
  12; 1 and 12 (500 is a 0 bit); 4 and 0 (1600 is out of bounds: abort and restart). The
  Event Record stays as it was at start-up throughout: no frame completes.
\<close>

theorem scenario_trace:
  "pf_trace scenario_descriptor [800, 800, 300, 800, 900, 500, 1600]
       (lirr_init\<lparr>referenceTime := t0\<rparr>)
     = [(4, 0, remoteEvents lirr_init), (3, 8, remoteEvents lirr_init),
        (4, 0, remoteEvents lirr_init), (3, 8, remoteEvents lirr_init),
        (2, 12, remoteEvents lirr_init), (1, 12, remoteEvents lirr_init),
        (4, 0, remoteEvents lirr_init)]"
  by (simp add: pf_measure_def pulseFractionDecode_def pf_case_false_def pf_case_true_def
        scenario_descriptor_def lirr_init_def Let_def)

theorem scenario_trace_witness:
  "map (\<lambda>x. (fst x, fst (snd x)))
     (pf_trace scenario_descriptor [800, 800, 300, 800, 900, 500, 1600] lirr_init)
     = [(4, 0), (3, 8), (4, 0), (3, 8), (2, 12), (1, 12), (4, 0)]"
proof -
  have "lirr_init\<lparr>referenceTime := 0\<rparr> = lirr_init"
    by (simp add: lirr_init_def)
  then show ?thesis
    using scenario_trace [of 0] by simp
qed

section \<open>C8: what a poll writes\<close>

text \<open>
  C8. For every state and every poll time, \<open>lirrGetEvents\<close> returns the Event Record
  it leaves behind; \<open>pressTime\<close> and \<open>toggleState\<close> are unchanged; \<open>buttonCode\<close> is
  unchanged except that a poll in state RELEASED clears it to 0 (on the way to NONE);
  \<open>curTime\<close> becomes the poll time; \<open>buttonState\<close> follows the transition rule; and
  nothing else of the program state changes: neither the reference time, nor the
  accumulator, nor the decoders' working state.
\<close>

theorem poll_frame:
  "fst (lirrGetEvents t s) = remoteEvents (snd (lirrGetEvents t s))
   \<and> pressTime (fst (lirrGetEvents t s)) = pressTime (remoteEvents s)
   \<and> toggleState (fst (lirrGetEvents t s)) = toggleState (remoteEvents s)
   \<and> buttonCode (fst (lirrGetEvents t s))
       = (if buttonState (remoteEvents s) = BUTTON_RELEASED then 0 else buttonCode (remoteEvents s))
   \<and> curTime (fst (lirrGetEvents t s)) = t
   \<and> buttonState (fst (lirrGetEvents t s))
       = (if buttonState (remoteEvents s) = BUTTON_PRESSED then BUTTON_HELD
          else if buttonState (remoteEvents s) = BUTTON_HELD
          then (if repeatInt < t - referenceTime s then BUTTON_RELEASED else BUTTON_HELD)
          else if buttonState (remoteEvents s) = BUTTON_RELEASED then BUTTON_NONE
          else if buttonState (remoteEvents s) = BUTTON_NONE \<and> buttonCode (remoteEvents s) \<noteq> 0
          then BUTTON_PRESSED
          else buttonState (remoteEvents s))
   \<and> snd (lirrGetEvents t s)
       = s\<lparr>remoteEvents := (remoteEvents s)
            \<lparr>curTime := t,
             buttonState := buttonState (fst (lirrGetEvents t s)),
             buttonCode := buttonCode (fst (lirrGetEvents t s))\<rparr>\<rparr>"
  by (simp add: lirrGetEvents_def lirrGetEvents_upd_def poll_case_none_def button_defs Let_def)

theorem poll_frame_witness:
  "buttonCode (fst (lirrGetEvents 500000
       (lirr_init\<lparr>remoteEvents := \<lparr>pressTime = 7, curTime = 9, buttonCode = 10,
          buttonState = BUTTON_RELEASED, toggleState = True\<rparr>\<rparr>))) = 0
   \<and> pressTime (fst (lirrGetEvents 500000
       (lirr_init\<lparr>remoteEvents := \<lparr>pressTime = 7, curTime = 9, buttonCode = 10,
          buttonState = BUTTON_RELEASED, toggleState = True\<rparr>\<rparr>))) = 7
   \<and> toggleState (fst (lirrGetEvents 500000
       (lirr_init\<lparr>remoteEvents := \<lparr>pressTime = 7, curTime = 9, buttonCode = 10,
          buttonState = BUTTON_RELEASED, toggleState = True\<rparr>\<rparr>)))
   \<and> buttonState (fst (lirrGetEvents 500000
       (lirr_init\<lparr>remoteEvents := \<lparr>pressTime = 7, curTime = 9, buttonCode = 10,
          buttonState = BUTTON_RELEASED, toggleState = True\<rparr>\<rparr>))) = BUTTON_NONE"
proof -
  define s0 where "s0 = lirr_init\<lparr>remoteEvents := \<lparr>pressTime = 7, curTime = 9,
      buttonCode = 10, buttonState = BUTTON_RELEASED, toggleState = True\<rparr>\<rparr>"
  have v: "pressTime (remoteEvents s0) = 7" "toggleState (remoteEvents s0)"
      "buttonState (remoteEvents s0) = BUTTON_RELEASED"
    by (simp_all add: s0_def)
  have ne: "BUTTON_RELEASED \<noteq> BUTTON_PRESSED" "BUTTON_RELEASED \<noteq> BUTTON_HELD"
    by (simp_all add: button_defs)
  note T = poll_frame [of 500000 s0]
  note T2 = T[THEN conjunct2]
  note T3 = T2[THEN conjunct2]
  note T4 = T3[THEN conjunct2]
  note T6 = T4[THEN conjunct2, THEN conjunct2]
  have "pressTime (fst (lirrGetEvents 500000 s0)) = 7"
    using T2[THEN conjunct1] v by simp
  moreover have "toggleState (fst (lirrGetEvents 500000 s0))"
    using T3[THEN conjunct1] v by simp
  moreover have "buttonCode (fst (lirrGetEvents 500000 s0)) = 0"
    using T4[THEN conjunct1] v by simp
  moreover have "buttonState (fst (lirrGetEvents 500000 s0)) = BUTTON_NONE"
    using T6[THEN conjunct1] v ne by simp
  ultimately show ?thesis
    unfolding s0_def by simp
qed

section \<open>C2: a completed frame is published only in state NONE\<close>

text \<open>
  C2. When a decoder accepts the last bit of a frame (one bit remained, and the interval
  is within the bounds in force), the call returns with no bits remaining and the
  accumulator completed by that bit; if the Event Record's \<open>buttonState\<close> is
  \<open>BUTTON_NONE\<close>, \<open>buttonCode\<close> becomes the accumulator, \<open>pressTime\<close> the time of the
  call and \<open>toggleState\<close> is inverted; in any other state the Event Record is left as
  it was. In both cases the decoder goes on: the next call, whatever its level and
  time, returns normally. This holds for \<open>pulseFractionDecode\<close> and for
  \<open>biPhaseDecode\<close>.
\<close>

theorem completion_publishes_iff_none:
  "(pf_bitsRemaining s = 1 \<and> pf_bit_ok cfg (t - referenceTime s) \<longrightarrow>
      (\<exists>s'. pulseFractionDecode cfg (distanceMode cfg) t s = Some s'
         \<and> pf_bitsRemaining s' = 0
         \<and> incomingCode s' =
             (if pf_bit cfg (t - referenceTime s) then incomingCode s OR 1 else incomingCode s)
         \<and> remoteEvents s' =
             (if buttonState (remoteEvents s) = BUTTON_NONE
              then (remoteEvents s)\<lparr>buttonCode := incomingCode s', pressTime := t,
                     toggleState := \<not> toggleState (remoteEvents s)\<rparr>
              else remoteEvents s)
         \<and> (\<forall>p' t'. pulseFractionDecode cfg p' t' s' \<noteq> None)))
   \<and> (bp_bitsRemaining sb = 1 \<and> deref_bitTime bcfg (bp_bitTime sb) = Some bt
        \<and> ucast (fst bt) < tb - referenceTime sb \<and> tb - referenceTime sb < ucast (snd bt) \<longrightarrow>
      (\<exists>s'. biPhaseDecode bcfg p tb sb = Some s'
         \<and> bp_bitsRemaining s' = 0
         \<and> incomingCode s' =
             (if p = aceRising bcfg \<and> togglePos bcfg \<noteq> 0 then incomingCode sb + 1
              else incomingCode sb)
         \<and> remoteEvents s' =
             (if buttonState (remoteEvents sb) = BUTTON_NONE
              then (remoteEvents sb)\<lparr>buttonCode := incomingCode s', pressTime := tb,
                     toggleState := \<not> toggleState (remoteEvents sb)\<rparr>
              else remoteEvents sb)
         \<and> (\<forall>p' t'. biPhaseDecode bcfg p' t' s' \<noteq> None)))"
proof (intro conjI impI)
  assume a: "pf_bitsRemaining s = 1 \<and> pf_bit_ok cfg (t - referenceTime s)"
  show "\<exists>s'. pulseFractionDecode cfg (distanceMode cfg) t s = Some s'
         \<and> pf_bitsRemaining s' = 0
         \<and> incomingCode s' =
             (if pf_bit cfg (t - referenceTime s) then incomingCode s OR 1 else incomingCode s)
         \<and> remoteEvents s' =
             (if buttonState (remoteEvents s) = BUTTON_NONE
              then (remoteEvents s)\<lparr>buttonCode := incomingCode s', pressTime := t,
                     toggleState := \<not> toggleState (remoteEvents s)\<rparr>
              else remoteEvents s)
         \<and> (\<forall>p' t'. pulseFractionDecode cfg p' t' s' \<noteq> None)"
    using a by (simp add: pf_final_bit pf_idle_total Let_def)
next
  assume a: "bp_bitsRemaining sb = 1 \<and> deref_bitTime bcfg (bp_bitTime sb) = Some bt
        \<and> ucast (fst bt) < tb - referenceTime sb \<and> tb - referenceTime sb < ucast (snd bt)"
  show "\<exists>s'. biPhaseDecode bcfg p tb sb = Some s'
         \<and> bp_bitsRemaining s' = 0
         \<and> incomingCode s' =
             (if p = aceRising bcfg \<and> togglePos bcfg \<noteq> 0 then incomingCode sb + 1
              else incomingCode sb)
         \<and> remoteEvents s' =
             (if buttonState (remoteEvents sb) = BUTTON_NONE
              then (remoteEvents sb)\<lparr>buttonCode := incomingCode s', pressTime := tb,
                     toggleState := \<not> toggleState (remoteEvents sb)\<rparr>
              else remoteEvents sb)
         \<and> (\<forall>p' t'. biPhaseDecode bcfg p' t' s' \<noteq> None)"
    using a by (simp add: bp_final_bit bp_idle_total Let_def)
qed

theorem completion_publishes_iff_none_witness:
  "(\<exists>s'. pulseFractionDecode scenario_descriptor True 800
            (lirr_init\<lparr>pf_bitsRemaining := 1, incomingCode := 8\<rparr>) = Some s'
        \<and> buttonCode (remoteEvents s') = 9 \<and> pressTime (remoteEvents s') = 800
        \<and> toggleState (remoteEvents s'))
   \<and> (\<exists>s'. biPhaseDecode PROTOCOL_RC6_MODE0 False 800
            (lirr_init\<lparr>bp_bitsRemaining := 1, bp_bitTime := To_bitTime, incomingCode := 8,
               remoteEvents := (remoteEvents lirr_init)\<lparr>buttonState := BUTTON_HELD\<rparr>\<rparr>) = Some s'
        \<and> incomingCode s' = 9
        \<and> buttonCode (remoteEvents s') = 0 \<and> pressTime (remoteEvents s') = 0
        \<and> \<not> toggleState (remoteEvents s'))"
proof -
  define sp where "sp = lirr_init\<lparr>pf_bitsRemaining := 1, incomingCode := 8\<rparr>"
  define sb where "sb = lirr_init\<lparr>bp_bitsRemaining := 1, bp_bitTime := To_bitTime,
      incomingCode := 8, remoteEvents := (remoteEvents lirr_init)\<lparr>buttonState := BUTTON_HELD\<rparr>\<rparr>"
  have hp: "pf_bitsRemaining sp = 1 \<and> pf_bit_ok scenario_descriptor (800 - referenceTime sp)"
    by (simp add: sp_def lirr_init_def scenario_descriptor_def pf_bit_ok_def)
  have hb: "bp_bitsRemaining sb = 1
      \<and> deref_bitTime PROTOCOL_RC6_MODE0 (bp_bitTime sb) = Some (688, 1088)
      \<and> ucast (fst (688 :: u16, 1088 :: u16)) < 800 - referenceTime sb
      \<and> 800 - referenceTime sb < ucast (snd (688 :: u16, 1088 :: u16))"
    by (simp add: sb_def lirr_init_def PROTOCOL_RC6_MODE0_def deref_bitTime_def)
  have vp: "pf_bit scenario_descriptor (800 - referenceTime sp)" "incomingCode sp OR 1 = 9"
      "distanceMode scenario_descriptor = True"
      "buttonState (remoteEvents sp) = BUTTON_NONE" "\<not> toggleState (remoteEvents sp)"
    by (simp_all add: sp_def lirr_init_def scenario_descriptor_def pf_bit_def)
  have vb: "incomingCode sb + 1 = 9" "aceRising PROTOCOL_RC6_MODE0 = False"
      "togglePos PROTOCOL_RC6_MODE0 \<noteq> 0"
      "buttonState (remoteEvents sb) \<noteq> BUTTON_NONE" "\<not> toggleState (remoteEvents sb)"
      "buttonCode (remoteEvents sb) = 0" "pressTime (remoteEvents sb) = 0"
    by (simp_all add: sb_def lirr_init_def PROTOCOL_RC6_MODE0_def button_defs)
  from completion_publishes_iff_none
         [of sp scenario_descriptor 800 sb PROTOCOL_RC6_MODE0 "(688, 1088)" 800 False] hp hb
  show ?thesis
    unfolding sp_def [symmetric] sb_def [symmetric] using vp vb by auto
qed

section \<open>C3: the polls after a single press\<close>

text \<open>
  C3, as the code has it. Let one frame with a nonzero code be published into an Event
  Record in state NONE, let the decoder then stay silent, and let every poll come when
  poll time minus reference time (modulo \<open>2^32\<close>) exceeds the repeat interval. Then the
  polls return, in this order: \<open>BUTTON_PRESSED\<close> once, \<open>BUTTON_HELD\<close> once (the poll
  after PRESSED reports HELD whatever the silence), \<open>BUTTON_RELEASED\<close> once, and
  \<open>BUTTON_NONE\<close> on every later poll.
\<close>

theorem single_press_poll_sequence:
  assumes "buttonState (remoteEvents s) = BUTTON_NONE"
    and "buttonCode (remoteEvents s) \<noteq> 0"
    and "list_all (\<lambda>t. repeatInt < t - referenceTime s) ts"
  shows "poll_states ts s =
     take (length ts)
       ([BUTTON_PRESSED, BUTTON_HELD, BUTTON_RELEASED] @ replicate (length ts) BUTTON_NONE)"
  using assms
  by (cases ts)
     (simp_all add: lirrGetEvents_def poll_pending poll_states_pressed [where n = "length ts"])

theorem single_press_poll_sequence_witness:
  "poll_states [200000, 300000, 400000, 500000, 600000]
     (lirr_init\<lparr>referenceTime := 3500,
        remoteEvents := (remoteEvents lirr_init)\<lparr>buttonCode := 10, pressTime := 3500,
          toggleState := True\<rparr>\<rparr>)
   = [BUTTON_PRESSED, BUTTON_HELD, BUTTON_RELEASED, BUTTON_NONE, BUTTON_NONE]"
proof -
  define s0 where "s0 = lirr_init\<lparr>referenceTime := 3500,
        remoteEvents := (remoteEvents lirr_init)\<lparr>buttonCode := 10, pressTime := 3500,
          toggleState := True\<rparr>\<rparr>"
  have h1: "buttonState (remoteEvents s0) = BUTTON_NONE"
    by (simp add: s0_def lirr_init_def)
  have h2: "buttonCode (remoteEvents s0) \<noteq> 0"
    by (simp add: s0_def lirr_init_def)
  have h3: "list_all (\<lambda>t. repeatInt < t - referenceTime s0)
              [200000, 300000, 400000, 500000, 600000]"
    by (simp add: s0_def lirr_init_def repeatInt_def)
  show ?thesis
    using single_press_poll_sequence [OF h1 h2 h3]
    unfolding s0_def by simp
qed

text \<open>
  The specification allows no \<open>BUTTON_HELD\<close> result here. A four-bit frame 1010 decoded
  from start-up, last edge at 3500 microseconds, then polls at 0.2, 0.3, 0.4 and 0.5
  seconds: the second poll returns \<open>BUTTON_HELD\<close>.
\<close>

theorem single_press_has_held_poll:
  "map_option (poll_states [200000, 300000, 400000, 500000])
     (pf_run scenario_descriptor
        [(True, 800), (False, 1000), (True, 1600), (True, 2100), (True, 3000), (True, 3500)]
        lirr_init)
   = Some [BUTTON_PRESSED, BUTTON_HELD, BUTTON_RELEASED, BUTTON_NONE]"
  by (simp add: pulseFractionDecode_def pf_case_false_def pf_case_true_def
        scenario_descriptor_def lirr_init_def Let_def lirrGetEvents_def lirrGetEvents_upd_def
        poll_case_none_def repeatInt_def button_defs)

section \<open>C10: a frame of zeros\<close>

text \<open>
  C10. When the last bit of a frame is accepted with the accumulator all zero (it was 0
  and the last bit adds nothing) while \<open>buttonState\<close> is \<open>BUTTON_NONE\<close>, either decoder
  publishes \<open>buttonCode = 0\<close>, sets \<open>pressTime\<close> to the time of the call and inverts
  \<open>toggleState\<close>; every poll that follows, at any times, returns \<open>BUTTON_NONE\<close>, so
  no press is ever reported for that frame.
\<close>

theorem zero_code_toggles_without_press:
  "(pf_bitsRemaining s = 1 \<and> pf_bit_ok cfg (t - referenceTime s)
      \<and> \<not> pf_bit cfg (t - referenceTime s) \<and> incomingCode s = 0
      \<and> buttonState (remoteEvents s) = BUTTON_NONE \<longrightarrow>
      (\<exists>s'. pulseFractionDecode cfg (distanceMode cfg) t s = Some s'
         \<and> buttonCode (remoteEvents s') = 0
         \<and> pressTime (remoteEvents s') = t
         \<and> toggleState (remoteEvents s') = (\<not> toggleState (remoteEvents s))
         \<and> (\<forall>ts. poll_states ts s' = replicate (length ts) BUTTON_NONE)))
   \<and> (bp_bitsRemaining sb = 1 \<and> deref_bitTime bcfg (bp_bitTime sb) = Some bt
        \<and> ucast (fst bt) < tb - referenceTime sb \<and> tb - referenceTime sb < ucast (snd bt)
        \<and> \<not> (p = aceRising bcfg \<and> togglePos bcfg \<noteq> 0) \<and> incomingCode sb = 0
        \<and> buttonState (remoteEvents sb) = BUTTON_NONE \<longrightarrow>
      (\<exists>s'. biPhaseDecode bcfg p tb sb = Some s'
         \<and> buttonCode (remoteEvents s') = 0
         \<and> pressTime (remoteEvents s') = tb
         \<and> toggleState (remoteEvents s') = (\<not> toggleState (remoteEvents sb))
         \<and> (\<forall>ts. poll_states ts s' = replicate (length ts) BUTTON_NONE)))"
proof (intro conjI impI)
  assume a: "pf_bitsRemaining s = 1 \<and> pf_bit_ok cfg (t - referenceTime s)
      \<and> \<not> pf_bit cfg (t - referenceTime s) \<and> incomingCode s = 0
      \<and> buttonState (remoteEvents s) = BUTTON_NONE"
  show "\<exists>s'. pulseFractionDecode cfg (distanceMode cfg) t s = Some s'
         \<and> buttonCode (remoteEvents s') = 0
         \<and> pressTime (remoteEvents s') = t
         \<and> toggleState (remoteEvents s') = (\<not> toggleState (remoteEvents s))
         \<and> (\<forall>ts. poll_states ts s' = replicate (length ts) BUTTON_NONE)"
    using a by (simp add: pf_final_bit poll_states_idle Let_def)
next
  assume a: "bp_bitsRemaining sb = 1 \<and> deref_bitTime bcfg (bp_bitTime sb) = Some bt
        \<and> ucast (fst bt) < tb - referenceTime sb \<and> tb - referenceTime sb < ucast (snd bt)
        \<and> \<not> (p = aceRising bcfg \<and> togglePos bcfg \<noteq> 0) \<and> incomingCode sb = 0
        \<and> buttonState (remoteEvents sb) = BUTTON_NONE"
  from a have a1: "bp_bitsRemaining sb = 1"
    and a2: "deref_bitTime bcfg (bp_bitTime sb) = Some bt"
    and a3: "ucast (fst bt) < tb - referenceTime sb"
    and a4: "tb - referenceTime sb < ucast (snd bt)"
    by blast+
  note f = bp_final_bit [OF a1 a2 a3 a4, of p]
  show "\<exists>s'. biPhaseDecode bcfg p tb sb = Some s'
         \<and> buttonCode (remoteEvents s') = 0
         \<and> pressTime (remoteEvents s') = tb
         \<and> toggleState (remoteEvents s') = (\<not> toggleState (remoteEvents sb))
         \<and> (\<forall>ts. poll_states ts s' = replicate (length ts) BUTTON_NONE)"
    using a by (auto simp add: f poll_states_idle Let_def)
qed

theorem zero_code_toggles_without_press_witness:
  "(\<exists>s'. pulseFractionDecode scenario_descriptor True 500
            (lirr_init\<lparr>pf_bitsRemaining := 1\<rparr>) = Some s'
        \<and> toggleState (remoteEvents s') \<and> pressTime (remoteEvents s') = 500
        \<and> poll_states [200000, 400000] s' = [BUTTON_NONE, BUTTON_NONE])
   \<and> (\<exists>s'. biPhaseDecode PROTOCOL_RC6_MODE0 True 800
            (lirr_init\<lparr>bp_bitsRemaining := 1, bp_bitTime := To_bitTime\<rparr>) = Some s'
        \<and> toggleState (remoteEvents s') \<and> pressTime (remoteEvents s') = 800
        \<and> poll_states [200000, 400000] s' = [BUTTON_NONE, BUTTON_NONE])"
proof -
  define sp where "sp = lirr_init\<lparr>pf_bitsRemaining := 1\<rparr>"
  define sb where "sb = lirr_init\<lparr>bp_bitsRemaining := 1, bp_bitTime := To_bitTime\<rparr>"
  have hp: "pf_bitsRemaining sp = 1 \<and> pf_bit_ok scenario_descriptor (500 - referenceTime sp)
      \<and> \<not> pf_bit scenario_descriptor (500 - referenceTime sp) \<and> incomingCode sp = 0
      \<and> buttonState (remoteEvents sp) = BUTTON_NONE"
    by (simp add: sp_def lirr_init_def scenario_descriptor_def pf_bit_ok_def pf_bit_def)
  have hb: "bp_bitsRemaining sb = 1
      \<and> deref_bitTime PROTOCOL_RC6_MODE0 (bp_bitTime sb) = Some (688, 1088)
      \<and> ucast (fst (688 :: u16, 1088 :: u16)) < 800 - referenceTime sb
      \<and> 800 - referenceTime sb < ucast (snd (688 :: u16, 1088 :: u16))
      \<and> \<not> (True = aceRising PROTOCOL_RC6_MODE0 \<and> togglePos PROTOCOL_RC6_MODE0 \<noteq> 0)
      \<and> incomingCode sb = 0 \<and> buttonState (remoteEvents sb) = BUTTON_NONE"
    by (simp add: sb_def lirr_init_def PROTOCOL_RC6_MODE0_def deref_bitTime_def)
  have v: "distanceMode scenario_descriptor = True" "\<not> toggleState (remoteEvents sp)"
      "\<not> toggleState (remoteEvents sb)"
    by (simp_all add: sp_def sb_def lirr_init_def scenario_descriptor_def)
  have rp: "replicate (length [200000, 400000 :: u32]) BUTTON_NONE = [BUTTON_NONE, BUTTON_NONE]"
    by simp
  note T = zero_code_toggles_without_press
         [of sp scenario_descriptor 500 sb PROTOCOL_RC6_MODE0 "(688, 1088)" 800 True]
  from T[THEN conjunct1, rule_format, OF hp] obtain s1 where
    p: "pulseFractionDecode scenario_descriptor (distanceMode scenario_descriptor) 500 sp = Some s1"
       "pressTime (remoteEvents s1) = 500"
       "toggleState (remoteEvents s1) = (\<not> toggleState (remoteEvents sp))"
       "\<forall>ts. poll_states ts s1 = replicate (length ts) BUTTON_NONE"
    by blast
  from T[THEN conjunct2, rule_format, OF hb] obtain s2 where
    b: "biPhaseDecode PROTOCOL_RC6_MODE0 True 800 sb = Some s2"
       "pressTime (remoteEvents s2) = 800"
       "toggleState (remoteEvents s2) = (\<not> toggleState (remoteEvents sb))"
       "\<forall>ts. poll_states ts s2 = replicate (length ts) BUTTON_NONE"
    by blast
  have "poll_states [200000, 400000] s1 = [BUTTON_NONE, BUTTON_NONE]"
    using p(4)[rule_format, of "[200000, 400000]"] rp by (simp only:)
  moreover have "poll_states [200000, 400000] s2 = [BUTTON_NONE, BUTTON_NONE]"
    using b(4)[rule_format, of "[200000, 400000]"] rp by (simp only:)
  ultimately show ?thesis
    unfolding sp_def [symmetric] sb_def [symmetric] using p(1,2,3) b(1,2,3) v by simp
qed

section \<open>C9: elapsed time is modular, comparisons are strict\<close>

text \<open>
  C9. Every timing decision is a strict comparison of the elapsed time, the unsigned
  32-bit modular difference \<open>now - reference\<close> read as a number, with a bound. At a
  measuring edge of the pulse-fraction decoder the interval is a bit exactly when a
  frame is in progress and bitMin < elapsed < bitMax, the bit is 1 exactly when
  bitSep < elapsed, and otherwise a frame begins exactly when
  startMin < elapsed < startMax or startMax is 0; the complementary edge compares
  nothing. In the bi-phase decoder, with a frame
  in progress, the edge is the middle of a bit exactly when lower < elapsed < upper for
  the pair in force, is ignored when elapsed is at most the lower bound, and aborts the
  frame exactly when elapsed is at least the upper bound. A poll releases a held button
  exactly when repeatInt < elapsed, and no other transition of the poll reads the
  clock. The elapsed time of a duration below \<open>2^32\<close> microseconds is that duration
  whether or not the counter wraps in between; accordingly both decoders and the poll
  give the same result, with its timestamps moved, when every timestamp and the time of
  the call are moved by one offset modulo \<open>2^32\<close>. At equality with a bound nothing
  is accepted: an interval equal to bitMin or bitMax is no bit, one equal to bitSep sets
  no bit, one equal to startMin or startMax starts no frame when start checking is
  enabled, one equal to the upper bound aborts the bi-phase frame and one equal to the
  lower bound is not the middle of a bit, and a silence equal to the repeat interval
  releases nothing.
\<close>

theorem elapsed_time_modular_and_strict:
  "(D < 2 ^ 32 \<longrightarrow> elapsed (r + of_nat D) r = D)
   \<and> pulseFractionDecode cfg (distanceMode cfg) t s =
     (if pf_bitsRemaining s \<noteq> 0
          \<and> unat (bitMin cfg) < elapsed t (referenceTime s)
          \<and> elapsed t (referenceTime s) < unat (bitMax cfg)
      then
        (if unat (bitSep cfg) < elapsed t (referenceTime s)
              \<and> 32 \<le> unat (pf_bitsRemaining s - 1)
         then None
         else Some
           (let c = (if unat (bitSep cfg) < elapsed t (referenceTime s)
                     then incomingCode s OR push_bit (unat (pf_bitsRemaining s - 1)) 1
                     else incomingCode s)
            in s\<lparr>referenceTime := t, pf_bitsRemaining := pf_bitsRemaining s - 1,
                 incomingCode := c,
                 remoteEvents :=
                   (if pf_bitsRemaining s - 1 = 0 \<and> buttonState (remoteEvents s) = BUTTON_NONE
                    then (remoteEvents s)\<lparr>buttonCode := c, pressTime := t,
                           toggleState := \<not> toggleState (remoteEvents s)\<rparr>
                    else remoteEvents s)\<rparr>))
      else Some
        (if (unat (startMin cfg) < elapsed t (referenceTime s)
               \<and> elapsed t (referenceTime s) < unat (startMax cfg))
             \<or> startMax cfg = 0
         then s\<lparr>referenceTime := t,
                pf_bitsRemaining := lirrPulseFractionSettings_t.bits cfg, incomingCode := 0\<rparr>
         else s\<lparr>referenceTime := t, pf_bitsRemaining := 0\<rparr>))
   \<and> pulseFractionDecode cfg (\<not> distanceMode cfg) t s =
     Some (s\<lparr>referenceTime := (if distanceMode cfg then referenceTime s else t)\<rparr>)
   \<and> biPhaseDecode bcfg p t s =
     (if bp_bitsRemaining s = 0 then Some (bp_case_true bcfg p t s)
      else
        (case deref_bitTime bcfg (bp_bitTime s) of
           None \<Rightarrow> None
         | Some bt \<Rightarrow>
             if elapsed t (referenceTime s) < unat (snd bt)
             then (if unat (fst bt) < elapsed t (referenceTime s)
                   then bp_mid_bit bcfg p t s else Some s)
             else Some (bp_case_true bcfg p t (s\<lparr>bp_bitsRemaining := 0\<rparr>))))
   \<and> snd (lirrGetEvents t s) =
     s\<lparr>remoteEvents := (remoteEvents s)
        \<lparr>curTime := t,
         buttonState :=
           (if buttonState (remoteEvents s) = BUTTON_PRESSED then BUTTON_HELD
            else if buttonState (remoteEvents s) = BUTTON_HELD
            then (if unat repeatInt < elapsed t (referenceTime s)
                  then BUTTON_RELEASED else BUTTON_HELD)
            else if buttonState (remoteEvents s) = BUTTON_RELEASED then BUTTON_NONE
            else if buttonState (remoteEvents s) = BUTTON_NONE
                    \<and> buttonCode (remoteEvents s) \<noteq> 0
            then BUTTON_PRESSED
            else buttonState (remoteEvents s)),
         buttonCode :=
           (if buttonState (remoteEvents s) = BUTTON_RELEASED then 0
            else buttonCode (remoteEvents s))\<rparr>\<rparr>
   \<and> pulseFractionDecode cfg p (t + k) (shift_time k s)
       = map_option (shift_time k) (pulseFractionDecode cfg p t s)
   \<and> biPhaseDecode bcfg p (t + k) (shift_time k s)
       = map_option (shift_time k) (biPhaseDecode bcfg p t s)
   \<and> snd (lirrGetEvents (t + k) (shift_time k s)) = shift_time k (snd (lirrGetEvents t s))
   \<and> pulseFractionDecode cfg (distanceMode cfg) (referenceTime s + ucast (bitMin cfg)) s
       = Some (pf_case_true cfg (ucast (bitMin cfg))
                (s\<lparr>referenceTime := referenceTime s + ucast (bitMin cfg), pf_bitsRemaining := 0\<rparr>))
   \<and> pulseFractionDecode cfg (distanceMode cfg) (referenceTime s + ucast (bitMax cfg)) s
       = Some (pf_case_true cfg (ucast (bitMax cfg))
                (s\<lparr>referenceTime := referenceTime s + ucast (bitMax cfg), pf_bitsRemaining := 0\<rparr>))
   \<and> (\<exists>s'. pulseFractionDecode cfg (distanceMode cfg) (referenceTime s + ucast (bitSep cfg)) s
              = Some s'
          \<and> (incomingCode s' = incomingCode s \<or> incomingCode s' = 0))
   \<and> (pf_bitsRemaining s = 0 \<and> startMax cfg \<noteq> 0 \<longrightarrow>
        pulseFractionDecode cfg (distanceMode cfg) (referenceTime s + ucast (startMin cfg)) s
          = Some (s\<lparr>referenceTime := referenceTime s + ucast (startMin cfg)\<rparr>)
        \<and> pulseFractionDecode cfg (distanceMode cfg) (referenceTime s + ucast (startMax cfg)) s
          = Some (s\<lparr>referenceTime := referenceTime s + ucast (startMax cfg)\<rparr>))
   \<and> (bp_bitsRemaining s \<noteq> 0 \<and> deref_bitTime bcfg (bp_bitTime s) = Some bt
        \<and> fst bt < snd bt \<longrightarrow>
        biPhaseDecode bcfg p (referenceTime s + ucast (snd bt)) s
          = Some (bp_case_true bcfg p (referenceTime s + ucast (snd bt))
                   (s\<lparr>bp_bitsRemaining := 0\<rparr>))
        \<and> biPhaseDecode bcfg p (referenceTime s + ucast (fst bt)) s = Some s)
   \<and> (buttonState (remoteEvents s) = BUTTON_HELD \<longrightarrow>
        buttonState (fst (lirrGetEvents (referenceTime s + repeatInt) s)) = BUTTON_HELD)"
proof -
  have n1: "D < 2 ^ 32 \<longrightarrow> elapsed (r + of_nat D) r = D"
    using elapsed_of_duration by blast
  have n2: "pulseFractionDecode cfg (\<not> distanceMode cfg) t s =
     Some (s\<lparr>referenceTime := (if distanceMode cfg then referenceTime s else t)\<rparr>)"
    by (rule pf_nonmeasuring) simp
  show ?thesis
    by (rule conjI [OF n1 conjI [OF pf_decision conjI [OF n2 conjI [OF bp_decision
          conjI [OF poll_decision offsets_and_bounds]]]]])
qed

theorem elapsed_time_modular_and_strict_witness:
  "elapsed 1400 4294966296 = 2400
   \<and> map_option pf_bitsRemaining
     (pulseFractionDecode PROTOCOL_SIRC False 1400
        (shift_time 4294966296
           (lirr_init\<lparr>bp_bitsRemaining := 13, bp_bitTime := To_startTime,
              remoteEvents := (remoteEvents lirr_init)\<lparr>buttonState := BUTTON_HELD\<rparr>\<rparr>)))
     = Some 12
   \<and> map_option pf_bitsRemaining
     (pulseFractionDecode PROTOCOL_SIRC False 2600
        (lirr_init\<lparr>bp_bitsRemaining := 13, bp_bitTime := To_startTime,
           remoteEvents := (remoteEvents lirr_init)\<lparr>buttonState := BUTTON_HELD\<rparr>\<rparr>))
     = Some 0
   \<and> map_option bp_bitsRemaining
     (biPhaseDecode PROTOCOL_RC5 False 1978
        (lirr_init\<lparr>bp_bitsRemaining := 13, bp_bitTime := To_startTime,
           remoteEvents := (remoteEvents lirr_init)\<lparr>buttonState := BUTTON_HELD\<rparr>\<rparr>))
     = Some 0
   \<and> buttonState (fst (lirrGetEvents 100000
        (lirr_init\<lparr>bp_bitsRemaining := 13, bp_bitTime := To_startTime,
           remoteEvents := (remoteEvents lirr_init)\<lparr>buttonState := BUTTON_HELD\<rparr>\<rparr>)))
     = BUTTON_HELD"
proof -
  define s0 where "s0 = lirr_init\<lparr>bp_bitsRemaining := 13, bp_bitTime := To_startTime,
           remoteEvents := (remoteEvents lirr_init)\<lparr>buttonState := BUTTON_HELD\<rparr>\<rparr>"
  note T0 = elapsed_time_modular_and_strict
             [where cfg = PROTOCOL_SIRC and p = False and t = 2400 and k = 4294966296
                and s = s0 and bcfg = PROTOCOL_RC5 and bt = "(1578, 1978)"
                and D = 2400 and r = 4294966296]
  note T = T0 [THEN conjunct2, THEN conjunct2, THEN conjunct2, THEN conjunct2, THEN conjunct2]
  have sum: "(4294966296 :: u32) + of_nat 2400 = 1400"
    by simp
  have el: "elapsed 1400 4294966296 = 2400"
    using T0 [THEN conjunct1, unfolded sum] by simp
  note T7 = T[THEN conjunct2, THEN conjunct2, THEN conjunct2, THEN conjunct2, THEN conjunct2,
              THEN conjunct2]
  have v: "referenceTime s0 = 0" "pf_bitsRemaining s0 = 0" "bp_bitsRemaining s0 = 13"
      "buttonState (remoteEvents s0) = BUTTON_HELD" "bp_bitTime s0 = To_startTime"
    by (simp_all add: s0_def lirr_init_def)
  have c: "distanceMode PROTOCOL_SIRC = False" "startMax PROTOCOL_SIRC = 2600"
      "startTime PROTOCOL_RC5 = (1578, 1978)"
    by (simp_all add: PROTOCOL_SIRC_def PROTOCOL_RC5_def)
  have w: "(2400 :: u32) + 4294966296 = 1400"
    by simp
  have e: "map_option pf_bitsRemaining (pulseFractionDecode PROTOCOL_SIRC False 2400 s0) = Some 12"
    by (simp add: pulseFractionDecode_def pf_case_true_def Let_def s0_def lirr_init_def
          PROTOCOL_SIRC_def)
  have a: "map_option pf_bitsRemaining
             (pulseFractionDecode PROTOCOL_SIRC False 1400 (shift_time 4294966296 s0)) = Some 12"
    using T[THEN conjunct1] e unfolding w
    by (auto simp add: shift_time_def)
  have h7: "pf_bitsRemaining s0 = 0 \<and> startMax PROTOCOL_SIRC \<noteq> 0"
    by (simp add: v c)
  have b: "map_option pf_bitsRemaining (pulseFractionDecode PROTOCOL_SIRC False 2600 s0) = Some 0"
    using T7[THEN conjunct1, rule_format, OF h7, THEN conjunct2] by (simp add: v c)
  have h8: "bp_bitsRemaining s0 \<noteq> 0
      \<and> deref_bitTime PROTOCOL_RC5 (bp_bitTime s0) = Some (1578, 1978)
      \<and> fst (1578 :: u16, 1978 :: u16) < snd (1578 :: u16, 1978 :: u16)"
    by (simp add: v c deref_bitTime_def)
  have d: "map_option bp_bitsRemaining (biPhaseDecode PROTOCOL_RC5 False 1978 s0) = Some 0"
    using T7[THEN conjunct2, THEN conjunct1, rule_format, OF h8, THEN conjunct1]
    by (simp add: v bp_case_true_def)
  have f: "buttonState (fst (lirrGetEvents 100000 s0)) = BUTTON_HELD"
    using T7[THEN conjunct2, THEN conjunct2, rule_format, OF v(4)] by (simp add: v repeatInt_def)
  show ?thesis
    using el a b d f unfolding s0_def by simp
qed

section \<open>C5: a timing violation aborts the frame and the next frame decodes\<close>

text \<open>
  C5. Let a frame be in progress and let an edge close an interval outside the accepted
  bounds: outside (bitMin, bitMax) at a measuring edge of the pulse-fraction decoder, at
  or above the upper bound of the pair in force in the bi-phase decoder. The call
  returns normally; it sets the bits remaining to 0 and falls into the start check, so
  its result is that of the start check on the decoder with no bits remaining; the
  Event Record is unchanged; and the accumulator is reset to 0 if this same edge begins
  a new frame. The next well-formed frame, which begins at the first edge at or after
  the aborting one that meets the start condition (a valid start interval, resp. a
  rising edge) and goes on with in-bounds intervals for every bit, is decoded without
  fault to the most-significant-bit-first value of its own bits, whatever the
  accumulator and the count held when the frame was aborted, for descriptors of at most
  32 bits.
\<close>

theorem timing_violation_recovers:
  "(pf_bitsRemaining s \<noteq> 0 \<and> \<not> pf_bit_ok cfg (t - referenceTime s)
      \<and> dropWhile (\<lambda>d. \<not> pf_start_ok cfg d) ((t - referenceTime s) # pf_intervals cfg t es)
           = d0 # ds
      \<and> length ds = unat (lirrPulseFractionSettings_t.bits cfg)
      \<and> list_all (pf_bit_ok cfg) ds
      \<and> unat (lirrPulseFractionSettings_t.bits cfg) \<le> 32 \<longrightarrow>
    (\<exists>s1 s'. pulseFractionDecode cfg (distanceMode cfg) t s = Some s1
       \<and> s1 = pf_case_true cfg (t - referenceTime s) (s\<lparr>referenceTime := t, pf_bitsRemaining := 0\<rparr>)
       \<and> remoteEvents s1 = remoteEvents s
       \<and> pf_bitsRemaining s1 =
           (if pf_start_ok cfg (t - referenceTime s) then lirrPulseFractionSettings_t.bits cfg else 0)
       \<and> incomingCode s1 = (if pf_start_ok cfg (t - referenceTime s) then 0 else incomingCode s)
       \<and> pf_run cfg es s1 = Some s'
       \<and> pf_bitsRemaining s' = 0
       \<and> incomingCode s' = msb_first (map (pf_bit cfg) ds)
       \<and> buttonCode (remoteEvents s') =
           (if ds \<noteq> [] \<and> buttonState (remoteEvents s) = BUTTON_NONE
            then msb_first (map (pf_bit cfg) ds) else buttonCode (remoteEvents s))))
   \<and> (bp_bitsRemaining sb \<noteq> 0 \<and> deref_bitTime bcfg (bp_bitTime sb) = Some bt
      \<and> \<not> tb - referenceTime sb < ucast (snd bt)
      \<and> dropWhile (\<lambda>e. \<not> fst e) ((p, tb) # bes) = e0 # body
      \<and> bp_frame_bits bcfg (unat (bits bcfg)) (snd e0) body = Some bs
      \<and> unat (bits bcfg) \<le> 32 \<longrightarrow>
    (\<exists>s1 s'. biPhaseDecode bcfg p tb sb = Some s1
       \<and> s1 = bp_case_true bcfg p tb (sb\<lparr>bp_bitsRemaining := 0\<rparr>)
       \<and> remoteEvents s1 = remoteEvents sb
       \<and> bp_bitsRemaining s1 = (if p then bits bcfg else 0)
       \<and> incomingCode s1 = (if p then 0 else incomingCode sb)
       \<and> bp_run bcfg bes s1 = Some s'
       \<and> bp_bitsRemaining s' = 0
       \<and> incomingCode s' = msb_first bs
       \<and> buttonCode (remoteEvents s') =
           (if bs \<noteq> [] \<and> buttonState (remoteEvents sb) = BUTTON_NONE
            then msb_first bs else buttonCode (remoteEvents sb))))"
  using pf_abort_recovers [of s cfg t es d0 ds] bp_abort_recovers [of sb bcfg bt tb p bes e0 body bs]
  by blast

theorem timing_violation_recovers_witness:
  "(\<exists>s1 s'. pulseFractionDecode scenario_descriptor True 1900
               (lirr_init\<lparr>referenceTime := 1600, incomingCode := 8, pf_bitsRemaining := 3\<rparr>)
             = Some s1
       \<and> pf_bitsRemaining s1 = 4 \<and> incomingCode s1 = 0
       \<and> pf_run scenario_descriptor [(True, 2700), (True, 3600), (True, 4100), (True, 5000)] s1
             = Some s'
       \<and> incomingCode s' = 13 \<and> buttonCode (remoteEvents s') = 13)
   \<and> (\<exists>s1 s'. biPhaseDecode PROTOCOL_RC5 True 5000
               (lirr_init\<lparr>referenceTime := 1000, incomingCode := 4096, bp_bitsRemaining := 5,
                  bp_bitTime := To_bitTime\<rparr>)
             = Some s1
       \<and> bp_bitsRemaining s1 = 13 \<and> incomingCode s1 = 0
       \<and> bp_run PROTOCOL_RC5
            [(True, 6778), (True, 8556), (False, 10334), (False, 12112), (False, 13890),
             (True, 14779), (False, 15668), (False, 17446), (False, 19224), (False, 21002),
             (True, 22780), (False, 24558), (True, 26336), (False, 27225), (True, 28114)] s1
             = Some s'
       \<and> incomingCode s' = 4107 \<and> buttonCode (remoteEvents s') = 4107)"
proof -
  define sp where
    "sp = lirr_init\<lparr>referenceTime := 1600, incomingCode := 8, pf_bitsRemaining := 3\<rparr>"
  define sb where
    "sb = lirr_init\<lparr>referenceTime := 1000, incomingCode := 4096, bp_bitsRemaining := 5,
                  bp_bitTime := To_bitTime\<rparr>"
  let ?es = "[(True, 2700), (True, 3600), (True, 4100), (True, 5000)] :: edge list"
  let ?ds = "[800, 900, 500, 900] :: u32 list"
  let ?bes = "[(True, 6778), (True, 8556), (False, 10334), (False, 12112), (False, 13890),
             (True, 14779), (False, 15668), (False, 17446), (False, 19224), (False, 21002),
             (True, 22780), (False, 24558), (True, 26336), (False, 27225), (True, 28114)]
             :: edge list"
  let ?bs = "[True, False, False, False, False, False, False, False, False, True, False,
              True, True]"
  have vp: "referenceTime sp = 1600" "pf_bitsRemaining sp = 3"
      "buttonState (remoteEvents sp) = BUTTON_NONE"
    by (simp_all add: sp_def lirr_init_def)
  have vb: "referenceTime sb = 1000" "bp_bitsRemaining sb = 5" "bp_bitTime sb = To_bitTime"
      "buttonState (remoteEvents sb) = BUTTON_NONE"
    by (simp_all add: sb_def lirr_init_def)
  have hp: "pf_bitsRemaining sp \<noteq> 0 \<and> \<not> pf_bit_ok scenario_descriptor (1900 - referenceTime sp)
      \<and> dropWhile (\<lambda>d. \<not> pf_start_ok scenario_descriptor d)
           ((1900 - referenceTime sp) # pf_intervals scenario_descriptor 1900 ?es) = 300 # ?ds
      \<and> length ?ds = unat (lirrPulseFractionSettings_t.bits scenario_descriptor)
      \<and> list_all (pf_bit_ok scenario_descriptor) ?ds
      \<and> unat (lirrPulseFractionSettings_t.bits scenario_descriptor) \<le> 32"
    by (simp add: vp scenario_descriptor_def pf_bit_ok_def pf_start_ok_def)
  have hb: "bp_bitsRemaining sb \<noteq> 0
      \<and> deref_bitTime PROTOCOL_RC5 (bp_bitTime sb) = Some (1578, 1978)
      \<and> \<not> 5000 - referenceTime sb < ucast (snd (1578 :: u16, 1978 :: u16))
      \<and> dropWhile (\<lambda>e. \<not> fst e) ((True, 5000) # ?bes) = (True, 5000) # ?bes
      \<and> bp_frame_bits PROTOCOL_RC5 (unat (bits PROTOCOL_RC5)) (snd (True, 5000 :: u32)) ?bes
           = Some ?bs
      \<and> unat (bits PROTOCOL_RC5) \<le> 32"
    by (simp add: vb PROTOCOL_RC5_def deref_bitTime_def bp_pair_def)
  have mp: "msb_first (map (pf_bit scenario_descriptor) ?ds) = 13"
    by (simp add: scenario_descriptor_def pf_bit_def msb_first_def)
  have mb: "msb_first ?bs = 4107"
    by (simp add: msb_first_def)
  have c: "distanceMode scenario_descriptor = True"
      "pf_start_ok scenario_descriptor (1900 - referenceTime sp)"
      "lirrPulseFractionSettings_t.bits scenario_descriptor = 4" "bits PROTOCOL_RC5 = 13"
    by (simp_all add: scenario_descriptor_def PROTOCOL_RC5_def pf_start_ok_def)
  note T = timing_violation_recovers
    [of sp scenario_descriptor 1900 ?es 300 ?ds sb PROTOCOL_RC5 "(1578, 1978)" 5000 True ?bes
        "(True, 5000)" ?bes ?bs]
  from T [THEN conjunct1, rule_format, OF hp] obtain s1 s' where
    r1: "pulseFractionDecode scenario_descriptor (distanceMode scenario_descriptor) 1900 sp = Some s1"
    and r2: "pf_bitsRemaining s1 =
           (if pf_start_ok scenario_descriptor (1900 - referenceTime sp)
            then lirrPulseFractionSettings_t.bits scenario_descriptor else 0)"
    and r3: "incomingCode s1 =
           (if pf_start_ok scenario_descriptor (1900 - referenceTime sp) then 0 else incomingCode sp)"
    and r4: "pf_run scenario_descriptor ?es s1 = Some s'"
    and r5: "incomingCode s' = msb_first (map (pf_bit scenario_descriptor) ?ds)"
    and r6: "buttonCode (remoteEvents s') =
           (if ?ds \<noteq> [] \<and> buttonState (remoteEvents sp) = BUTTON_NONE
            then msb_first (map (pf_bit scenario_descriptor) ?ds) else buttonCode (remoteEvents sp))"
    by blast
  have p1: "pulseFractionDecode scenario_descriptor True 1900 sp = Some s1"
    using r1 c(1) by simp
  have p2: "pf_bitsRemaining s1 = 4" using r2 c(2,3) by simp
  have p3: "incomingCode s1 = 0" using r3 c(2) by simp
  have p5: "incomingCode s' = 13" using r5 mp by simp
  have p6: "buttonCode (remoteEvents s') = 13" using r6 mp vp(3) by simp
  have p: "\<exists>s1 s'. pulseFractionDecode scenario_descriptor True 1900 sp = Some s1
       \<and> pf_bitsRemaining s1 = 4 \<and> incomingCode s1 = 0
       \<and> pf_run scenario_descriptor ?es s1 = Some s'
       \<and> incomingCode s' = 13 \<and> buttonCode (remoteEvents s') = 13"
    using p1 p2 p3 r4 p5 p6 by blast
  from T [THEN conjunct2, rule_format, OF hb] obtain b1 b' where
    q1: "biPhaseDecode PROTOCOL_RC5 True 5000 sb = Some b1"
    and q2: "bp_bitsRemaining b1 = (if True then bits PROTOCOL_RC5 else 0)"
    and q3: "incomingCode b1 = (if True then 0 else incomingCode sb)"
    and q4: "bp_run PROTOCOL_RC5 ?bes b1 = Some b'"
    and q5: "incomingCode b' = msb_first ?bs"
    and q6: "buttonCode (remoteEvents b') =
           (if ?bs \<noteq> [] \<and> buttonState (remoteEvents sb) = BUTTON_NONE
            then msb_first ?bs else buttonCode (remoteEvents sb))"
    by blast
  have b2: "bp_bitsRemaining b1 = 13" using q2 c(4) by simp
  have b3: "incomingCode b1 = 0" using q3 by simp
  have b5: "incomingCode b' = 4107" using q5 mb by simp
  have b6: "buttonCode (remoteEvents b') = 4107" using q6 mb vb(4) by simp
  have b: "\<exists>s1 s'. biPhaseDecode PROTOCOL_RC5 True 5000 sb = Some s1
       \<and> bp_bitsRemaining s1 = 13 \<and> incomingCode s1 = 0
       \<and> bp_run PROTOCOL_RC5 ?bes s1 = Some s'
       \<and> incomingCode s' = 4107 \<and> buttonCode (remoteEvents s') = 4107"
    using q1 b2 b3 q4 b5 b6 by blast
  show ?thesis
    using p b unfolding sp_def sb_def by (rule conjI)
qed

section \<open>C4: when the toggle flag is inverted\<close>

text \<open>
  C4, as the code has it. Interrupts and polls are taken in any order, each running to
  completion. From every state, a poll never inverts \<open>toggleState\<close>, and neither does
  a decoder call made while \<open>buttonState\<close> is not \<open>BUTTON_NONE\<close>: frames that
  complete in state PRESSED, HELD or RELEASED leave the flag alone. For descriptors of
  at most 32 bits, from a state the decoder can be in, every session runs without
  fault; and when every frame published in it carries a nonzero code and is published
  while no earlier code is stored, the number of inversions of \<open>toggleState\<close> plus the
  codes pending at the start equals the number of polls that report \<open>BUTTON_PRESSED\<close>
  plus the codes pending at the end: one inversion for each NONE to PRESSED
  transition.
\<close>

theorem toggle_once_per_polled_press:
  "(\<forall>ev s1. step proto ev s = Some s1
        \<and> (buttonState (remoteEvents s) \<noteq> BUTTON_NONE \<or> (\<exists>t. ev = Poll t))
      \<longrightarrow> toggleState (remoteEvents s1) = toggleState (remoteEvents s))
   \<and> (proto_ok proto \<and> decoder_ok proto s \<and> polled_in_time proto evs s \<longrightarrow>
        (\<exists>s'. run proto evs s = Some s'
           \<and> toggle_count proto evs s + pending s = press_count proto evs s + pending s'))"
  using toggle_only_in_none [of proto _ s] toggle_press_balance [of proto s evs]
  by blast

theorem toggle_once_per_polled_press_witness:
  "toggle_count (PulseFraction scenario_descriptor)
       (scenario_frame 800 @ [Poll 5000, Poll 6000] @ scenario_frame 50000 @ [Poll 60000])
       lirr_init = 1
   \<and> press_count (PulseFraction scenario_descriptor)
       (scenario_frame 800 @ [Poll 5000, Poll 6000] @ scenario_frame 50000 @ [Poll 60000])
       lirr_init = 1"
proof -
  let ?P = "PulseFraction scenario_descriptor"
  let ?evs = "scenario_frame 800 @ [Poll 5000, Poll 6000] @ scenario_frame 50000 @ [Poll 60000]"
  have h1: "proto_ok ?P"
    by (simp add: proto_ok_def scenario_descriptor_def)
  have h2: "decoder_ok ?P lirr_init"
    by (simp add: decoder_ok_def lirr_init_def)
  have h3: "polled_in_time ?P ?evs lirr_init"
    by (simp add: session_eval scenario_frame_def)
  have r: "run ?P ?evs lirr_init
     = Some (lirr_init\<lparr>referenceTime := 52700, incomingCode := 10,
               remoteEvents := \<lparr>pressTime = 3500, curTime = 60000, buttonCode = 10,
                 buttonState = BUTTON_HELD, toggleState = True\<rparr>\<rparr>)"
    by (simp add: session_eval scenario_frame_def)
  have p: "press_count ?P ?evs lirr_init = 1"
    by (simp add: session_eval scenario_frame_def)
  have z: "pending lirr_init = 0"
      "pending (lirr_init\<lparr>referenceTime := 52700, incomingCode := 10,
               remoteEvents := \<lparr>pressTime = 3500, curTime = 60000, buttonCode = 10,
                 buttonState = BUTTON_HELD, toggleState = True\<rparr>\<rparr>) = 0"
    by (simp_all add: pending_def lirr_init_def button_defs)
  from toggle_once_per_polled_press [of ?P lirr_init ?evs, THEN conjunct2, rule_format]
    h1 h2 h3
  obtain s' where e: "run ?P ?evs lirr_init = Some s'"
    "toggle_count ?P ?evs lirr_init + pending lirr_init = press_count ?P ?evs lirr_init + pending s'"
    by blast
  have "toggle_count ?P ?evs lirr_init = 1"
    using e r p z by simp
  then show ?thesis
    using p by simp
qed

text \<open>
  The specification counts one inversion per NONE to PRESSED transition over any
  interleaving. Two frames 1010 completing from start-up with no poll in between, then a
  poll: \<open>toggleState\<close> is inverted by both frames, and the poll reports one press.
\<close>

theorem two_frames_one_press:
  "toggle_count (PulseFraction scenario_descriptor)
       (scenario_frame 800 @ scenario_frame 50000 @ [Poll 60000]) lirr_init = 2
   \<and> press_count (PulseFraction scenario_descriptor)
       (scenario_frame 800 @ scenario_frame 50000 @ [Poll 60000]) lirr_init = 1"
  by (simp add: session_eval scenario_frame_def)

section \<open>C7: the toggle position is left out of the code\<close>

text \<open>
  C7. For a bi-phase descriptor of at most 32 bits, every session of interrupts and
  polls from start-up runs without fault and leaves bit \<open>togglePos\<close> of the accumulator
  and of the published \<open>buttonCode\<close> clear. At the edge in the middle of the bit at the
  toggle position, whatever the level (so also when it matches \<open>aceRising\<close>), the
  accumulator is unchanged; the call only counts the bit and selects the toggle pair of
  bounds for the next interval (when bits remain).
\<close>

theorem toggle_position_never_in_code:
  "(unat (bits cfg) \<le> 32 \<longrightarrow>
      (\<exists>s'. run (BiPhase cfg) evs lirr_init = Some s'
         \<and> \<not> bit (incomingCode s') (unat (togglePos cfg))
         \<and> \<not> bit (buttonCode (remoteEvents s')) (unat (togglePos cfg))))
   \<and> (bp_bitsRemaining s \<noteq> 0 \<and> unat (bp_bitsRemaining s) - 1 = unat (togglePos cfg)
        \<and> deref_bitTime cfg (bp_bitTime s) = Some bt
        \<and> ucast (fst bt) < t - referenceTime s \<and> t - referenceTime s < ucast (snd bt) \<longrightarrow>
      (\<exists>s'. biPhaseDecode cfg p t s = Some s'
         \<and> incomingCode s' = incomingCode s
         \<and> bp_bitsRemaining s' = togglePos cfg
         \<and> bp_bitTime s' = (if togglePos cfg = 0 then bp_bitTime s else To_toggleTime)))"
proof (intro conjI impI)
  assume a: "unat (bits cfg) \<le> 32"
  have i1: "decoder_ok (BiPhase cfg) lirr_init"
    by (simp add: decoder_ok_def lirr_init_def)
  have i2: "\<not> bit (incomingCode lirr_init) (unat (togglePos cfg))"
      "\<not> bit (buttonCode (remoteEvents lirr_init)) (unat (togglePos cfg))"
    by (simp_all add: lirr_init_def)
  show "\<exists>s'. run (BiPhase cfg) evs lirr_init = Some s'
         \<and> \<not> bit (incomingCode s') (unat (togglePos cfg))
         \<and> \<not> bit (buttonCode (remoteEvents s')) (unat (togglePos cfg))"
    using run_toggle_clear [OF a i1 i2] .
next
  assume "bp_bitsRemaining s \<noteq> 0 \<and> unat (bp_bitsRemaining s) - 1 = unat (togglePos cfg)
        \<and> deref_bitTime cfg (bp_bitTime s) = Some bt
        \<and> ucast (fst bt) < t - referenceTime s \<and> t - referenceTime s < ucast (snd bt)"
  then show "\<exists>s'. biPhaseDecode cfg p t s = Some s'
         \<and> incomingCode s' = incomingCode s
         \<and> bp_bitsRemaining s' = togglePos cfg
         \<and> bp_bitTime s' = (if togglePos cfg = 0 then bp_bitTime s else To_toggleTime)"
    using bp_toggle_position_step [of s cfg bt t p] by blast
qed

theorem toggle_position_never_in_code_witness:
  "(\<exists>s'. run (BiPhase PROTOCOL_RC5) [Irq 5000, Irq 6778, Irq 8556, Poll 9000] lirr_init = Some s'
       \<and> \<not> bit (incomingCode s') 11 \<and> \<not> bit (buttonCode (remoteEvents s')) 11)
   \<and> (\<exists>s'. biPhaseDecode PROTOCOL_RC5 True 8556
               (lirr_init\<lparr>referenceTime := 6778, incomingCode := 4096, bp_bitsRemaining := 12,
                  bp_bitTime := To_toggleTime\<rparr>) = Some s'
       \<and> incomingCode s' = 4096 \<and> bp_bitsRemaining s' = 11 \<and> bp_bitTime s' = To_toggleTime)"
proof -
  define s0 where "s0 = lirr_init\<lparr>referenceTime := 6778, incomingCode := 4096,
      bp_bitsRemaining := 12, bp_bitTime := To_toggleTime\<rparr>"
  note T = toggle_position_never_in_code
    [of PROTOCOL_RC5 "[Irq 5000, Irq 6778, Irq 8556, Poll 9000]" s0 "(1578, 1978)" 8556 True]
  have c: "unat (bits PROTOCOL_RC5) \<le> 32" "unat (togglePos PROTOCOL_RC5) = 11"
      "togglePos PROTOCOL_RC5 = 11"
    by (simp_all add: PROTOCOL_RC5_def)
  have h: "bp_bitsRemaining s0 \<noteq> 0 \<and> unat (bp_bitsRemaining s0) - 1 = unat (togglePos PROTOCOL_RC5)
        \<and> deref_bitTime PROTOCOL_RC5 (bp_bitTime s0) = Some (1578, 1978)
        \<and> ucast (fst (1578 :: u16, 1978 :: u16)) < 8556 - referenceTime s0
        \<and> 8556 - referenceTime s0 < ucast (snd (1578 :: u16, 1978 :: u16))"
    by (simp add: s0_def lirr_init_def PROTOCOL_RC5_def deref_bitTime_def)
  have v: "incomingCode s0 = 4096"
    by (simp add: s0_def)
  have a: "\<exists>s'. run (BiPhase PROTOCOL_RC5) [Irq 5000, Irq 6778, Irq 8556, Poll 9000] lirr_init = Some s'
       \<and> \<not> bit (incomingCode s') 11 \<and> \<not> bit (buttonCode (remoteEvents s')) 11"
    using T [THEN conjunct1, rule_format, OF c(1)] unfolding c(2) .
  have b: "\<exists>s'. biPhaseDecode PROTOCOL_RC5 True 8556 s0 = Some s'
       \<and> incomingCode s' = 4096 \<and> bp_bitsRemaining s' = 11 \<and> bp_bitTime s' = To_toggleTime"
    using T [THEN conjunct2, rule_format, OF h] unfolding c(3) v by simp
  show ?thesis
    using a b unfolding s0_def by (rule conjI)
qed

end
